theory Spec2Isabelle
  imports Main "HOL-Library.Word"
begin

section \<open>The C wrapper around the gRPC client of the Forthic runtime\<close>

text \<open>
  A shallow embedding of \<^verbatim>\<open>src/grpc/grpc_c_wrapper.cpp\<close> and of the enumerations of
  \<^verbatim>\<open>src/grpc/grpc_c_wrapper.h\<close>. Pointers are addresses into typed heaps, a null
  pointer is \<open>NullPtr\<close>, and every dereference of a null or released pointer is a
  \<open>fault\<close> branch of the model. Allocation (\<^verbatim>\<open>new\<close>, \<^verbatim>\<open>malloc\<close>) is taken to succeed.
\<close>

subsection \<open>Error codes and type tags (grpc\_c\_wrapper.h)\<close>

datatype GrpcErrorCode =
    GRPC_OK
  | GRPC_ERROR_INVALID_ARGUMENT
  | GRPC_ERROR_NOT_FOUND
  | GRPC_ERROR_ALREADY_EXISTS
  | GRPC_ERROR_PERMISSION_DENIED
  | GRPC_ERROR_RESOURCE_EXHAUSTED
  | GRPC_ERROR_FAILED_PRECONDITION
  | GRPC_ERROR_ABORTED
  | GRPC_ERROR_OUT_OF_RANGE
  | GRPC_ERROR_UNIMPLEMENTED
  | GRPC_ERROR_INTERNAL
  | GRPC_ERROR_UNAVAILABLE
  | GRPC_ERROR_DATA_LOSS
  | GRPC_ERROR_UNAUTHENTICATED
  | GRPC_ERROR_UNKNOWN

datatype StackValueType =
    STACK_VALUE_NULL
  | STACK_VALUE_INT
  | STACK_VALUE_STRING
  | STACK_VALUE_BOOL
  | STACK_VALUE_FLOAT
  | STACK_VALUE_ARRAY
  | STACK_VALUE_RECORD
  | STACK_VALUE_INSTANT
  | STACK_VALUE_PLAIN_DATE
  | STACK_VALUE_ZONED_DATETIME

subsection \<open>The transport status (grpcpp)\<close>

text \<open>
  \<^verbatim>\<open>grpc::StatusCode\<close> is an enumeration of the gRPC library with an integer
  representation, so a status can carry a value that the enumeration does not name.
  The code is kept as an integer and the enumerators are constants, with the values
  of the library's \<^verbatim>\<open>status_code_enum.h\<close>.
\<close>

type_synonym StatusCode = int

definition OK :: StatusCode where "OK = 0"
definition CANCELLED :: StatusCode where "CANCELLED = 1"
definition UNKNOWN :: StatusCode where "UNKNOWN = 2"
definition INVALID_ARGUMENT :: StatusCode where "INVALID_ARGUMENT = 3"
definition DEADLINE_EXCEEDED :: StatusCode where "DEADLINE_EXCEEDED = 4"
definition NOT_FOUND :: StatusCode where "NOT_FOUND = 5"
definition ALREADY_EXISTS :: StatusCode where "ALREADY_EXISTS = 6"
definition PERMISSION_DENIED :: StatusCode where "PERMISSION_DENIED = 7"
definition RESOURCE_EXHAUSTED :: StatusCode where "RESOURCE_EXHAUSTED = 8"
definition FAILED_PRECONDITION :: StatusCode where "FAILED_PRECONDITION = 9"
definition ABORTED :: StatusCode where "ABORTED = 10"
definition OUT_OF_RANGE :: StatusCode where "OUT_OF_RANGE = 11"
definition UNIMPLEMENTED :: StatusCode where "UNIMPLEMENTED = 12"
definition INTERNAL :: StatusCode where "INTERNAL = 13"
definition UNAVAILABLE :: StatusCode where "UNAVAILABLE = 14"
definition DATA_LOSS :: StatusCode where "DATA_LOSS = 15"
definition UNAUTHENTICATED :: StatusCode where "UNAUTHENTICATED = 16"

text \<open>The status values that the library's enumeration names.\<close>

definition defined_status_codes :: "StatusCode list" where
  "defined_status_codes =
     [OK, CANCELLED, UNKNOWN, INVALID_ARGUMENT, DEADLINE_EXCEEDED, NOT_FOUND,
      ALREADY_EXISTS, PERMISSION_DENIED, RESOURCE_EXHAUSTED, FAILED_PRECONDITION,
      ABORTED, OUT_OF_RANGE, UNIMPLEMENTED, INTERNAL, UNAVAILABLE, DATA_LOSS,
      UNAUTHENTICATED]"

record Status =
  error_code :: StatusCode
  error_message :: string

definition ok :: "Status \<Rightarrow> bool" where
  "ok status = (error_code status = OK)"

subsection \<open>status\_to\_error\_code\<close>

definition status_to_error_code :: "Status \<Rightarrow> GrpcErrorCode" where
  "status_to_error_code status =
     (if ok status then GRPC_OK
      else if error_code status = INVALID_ARGUMENT then GRPC_ERROR_INVALID_ARGUMENT
      else if error_code status = NOT_FOUND then GRPC_ERROR_NOT_FOUND
      else if error_code status = ALREADY_EXISTS then GRPC_ERROR_ALREADY_EXISTS
      else if error_code status = PERMISSION_DENIED then GRPC_ERROR_PERMISSION_DENIED
      else if error_code status = RESOURCE_EXHAUSTED then GRPC_ERROR_RESOURCE_EXHAUSTED
      else if error_code status = FAILED_PRECONDITION then GRPC_ERROR_FAILED_PRECONDITION
      else if error_code status = ABORTED then GRPC_ERROR_ABORTED
      else if error_code status = OUT_OF_RANGE then GRPC_ERROR_OUT_OF_RANGE
      else if error_code status = UNIMPLEMENTED then GRPC_ERROR_UNIMPLEMENTED
      else if error_code status = INTERNAL then GRPC_ERROR_INTERNAL
      else if error_code status = UNAVAILABLE then GRPC_ERROR_UNAVAILABLE
      else if error_code status = DATA_LOSS then GRPC_ERROR_DATA_LOSS
      else if error_code status = UNAUTHENTICATED then GRPC_ERROR_UNAUTHENTICATED
      else GRPC_ERROR_UNKNOWN)"

text \<open>The status values that the \<^verbatim>\<open>switch\<close> of the function has a case for.\<close>

definition switch_cases :: "StatusCode list" where
  "switch_cases =
     [INVALID_ARGUMENT, NOT_FOUND, ALREADY_EXISTS, PERMISSION_DENIED, RESOURCE_EXHAUSTED,
      FAILED_PRECONDITION, ABORTED, OUT_OF_RANGE, UNIMPLEMENTED, INTERNAL, UNAVAILABLE,
      DATA_LOSS, UNAUTHENTICATED]"

subsection \<open>Pointers and heaps\<close>

text \<open>
  A heap holds the objects of one C++ type. The cell at an address is \<open>Some x\<close> while
  the object is live and \<open>None\<close> once it is released; an address beyond the end has
  never been handed out. Allocation takes the first such address, so a new object
  never shares its address with an object that exists or has existed.
\<close>

type_synonym addr = nat

datatype pointer = NullPtr | Ptr addr

datatype fault = NullDereference | InvalidPointer

type_synonym 'a heap = "'a option list"

definition lookup :: "'a heap \<Rightarrow> addr \<Rightarrow> 'a option" where
  "lookup hp a = (if a < length hp then hp ! a else None)"

definition alloc :: "'a heap \<Rightarrow> 'a \<Rightarrow> addr \<times> 'a heap" where
  "alloc hp x = (length hp, hp @ [Some x])"

definition store :: "'a heap \<Rightarrow> addr \<Rightarrow> 'a \<Rightarrow> 'a heap" where
  "store hp a x = hp[a := Some x]"

definition release :: "'a heap \<Rightarrow> addr \<Rightarrow> 'a heap" where
  "release hp a = hp[a := None]"

definition deref :: "'a heap \<Rightarrow> pointer \<Rightarrow> fault + 'a" where
  "deref hp p =
     (case p of
        NullPtr \<Rightarrow> Inl NullDereference
      | Ptr a \<Rightarrow> (case lookup hp a of None \<Rightarrow> Inl InvalidPointer | Some x \<Rightarrow> Inr x))"

text \<open>
  An output parameter (a pointer to a variable of the caller): \<open>NoSlot\<close> is a null
  pointer, \<open>Slot x\<close> points to a variable that holds \<open>x\<close>. A function that writes
  the variable returns the slot with its new content.
\<close>

datatype 'a out_slot = NoSlot | Slot 'a

subsection \<open>The wire messages (generated from forthic\_runtime.proto)\<close>

type_synonym int64 = "64 word"

text \<open>
  A \<^verbatim>\<open>double\<close> is kept as its IEEE-754 bit pattern: the wrapper stores, copies and
  returns it and computes nothing with it. The pattern of \<open>0.0\<close> is \<open>0\<close>.
\<close>

type_synonym double = "64 word"

text \<open>
  Modelled from the spec: the payloads of the record and the three temporal variants,
  messages of the generated header that the wrapper never looks into. The spec leaves
  their representation open, and so does the model.
\<close>

typedecl RecordMsg
typedecl InstantMsg
typedecl PlainDateMsg
typedecl ZonedDateTimeMsg

instantiation RecordMsg :: equal
begin
definition equal_RecordMsg :: "RecordMsg \<Rightarrow> RecordMsg \<Rightarrow> bool" where
  "equal_RecordMsg x y = (x = y)"
instance by standard (simp add: equal_RecordMsg_def)
end

instantiation InstantMsg :: equal
begin
definition equal_InstantMsg :: "InstantMsg \<Rightarrow> InstantMsg \<Rightarrow> bool" where
  "equal_InstantMsg x y = (x = y)"
instance by standard (simp add: equal_InstantMsg_def)
end

instantiation PlainDateMsg :: equal
begin
definition equal_PlainDateMsg :: "PlainDateMsg \<Rightarrow> PlainDateMsg \<Rightarrow> bool" where
  "equal_PlainDateMsg x y = (x = y)"
instance by standard (simp add: equal_PlainDateMsg_def)
end

instantiation ZonedDateTimeMsg :: equal
begin
definition equal_ZonedDateTimeMsg :: "ZonedDateTimeMsg \<Rightarrow> ZonedDateTimeMsg \<Rightarrow> bool" where
  "equal_ZonedDateTimeMsg x y = (x = y)"
instance by standard (simp add: equal_ZonedDateTimeMsg_def)
end

text \<open>
  Modelled from the spec: the message \<^verbatim>\<open>forthic::StackValue\<close> of the generated
  \<^verbatim>\<open>forthic_runtime.pb.h\<close>, which is not among the sources. The spec gives it as
  "one of: null | int64 | string | bool | double | Value[] (array) | record | instant |
  plain\_date | zoned\_datetime", the variant present being the one optional field that
  is set. \<open>ValueNotSet\<close> is the message with no field set, as the default constructor
  leaves it.
\<close>

datatype ProtoStackValue =
    ValueNotSet
  | NullValue
  | IntValue int64
  | StringValue string
  | BoolValue bool
  | FloatValue double
  | ArrayValue "ProtoStackValue list"
  | RecordValue RecordMsg
  | InstantValue InstantMsg
  | PlainDateValue PlainDateMsg
  | ZonedDatetimeValue ZonedDateTimeMsg

text \<open>Modelled from the spec: \<^verbatim>\<open>has_null_value()\<close> of the generated message, which holds
  when the null marker field is the one that is set.\<close>

fun has_null_value :: "ProtoStackValue \<Rightarrow> bool" where
  "has_null_value NullValue = True"
| "has_null_value _ = False"

text \<open>Modelled from the spec: \<^verbatim>\<open>has_int_value()\<close> of the generated message, which holds
  when the int64 field is the one that is set.\<close>

fun has_int_value :: "ProtoStackValue \<Rightarrow> bool" where
  "has_int_value (IntValue _) = True"
| "has_int_value _ = False"

text \<open>Modelled from the spec: \<^verbatim>\<open>has_string_value()\<close> of the generated message, which holds
  when the string field is the one that is set.\<close>

fun has_string_value :: "ProtoStackValue \<Rightarrow> bool" where
  "has_string_value (StringValue _) = True"
| "has_string_value _ = False"

text \<open>Modelled from the spec: \<^verbatim>\<open>has_bool_value()\<close> of the generated message, which holds
  when the bool field is the one that is set.\<close>

fun has_bool_value :: "ProtoStackValue \<Rightarrow> bool" where
  "has_bool_value (BoolValue _) = True"
| "has_bool_value _ = False"

text \<open>Modelled from the spec: \<^verbatim>\<open>has_float_value()\<close> of the generated message, which holds
  when the double field is the one that is set.\<close>

fun has_float_value :: "ProtoStackValue \<Rightarrow> bool" where
  "has_float_value (FloatValue _) = True"
| "has_float_value _ = False"

text \<open>Modelled from the spec: \<^verbatim>\<open>has_array_value()\<close> of the generated message, which holds
  when the array field is the one that is set.\<close>

fun has_array_value :: "ProtoStackValue \<Rightarrow> bool" where
  "has_array_value (ArrayValue _) = True"
| "has_array_value _ = False"

text \<open>Modelled from the spec: \<^verbatim>\<open>has_record_value()\<close> of the generated message, which holds
  when the record field is the one that is set.\<close>

fun has_record_value :: "ProtoStackValue \<Rightarrow> bool" where
  "has_record_value (RecordValue _) = True"
| "has_record_value _ = False"

text \<open>Modelled from the spec: \<^verbatim>\<open>has_instant_value()\<close> of the generated message, which holds
  when the instant field is the one that is set.\<close>

fun has_instant_value :: "ProtoStackValue \<Rightarrow> bool" where
  "has_instant_value (InstantValue _) = True"
| "has_instant_value _ = False"

text \<open>Modelled from the spec: \<^verbatim>\<open>has_plain_date_value()\<close> of the generated message, which holds
  when the plain date field is the one that is set.\<close>

fun has_plain_date_value :: "ProtoStackValue \<Rightarrow> bool" where
  "has_plain_date_value (PlainDateValue _) = True"
| "has_plain_date_value _ = False"

text \<open>Modelled from the spec: \<^verbatim>\<open>has_zoned_datetime_value()\<close> of the generated message, which holds
  when the zoned datetime field is the one that is set.\<close>

fun has_zoned_datetime_value :: "ProtoStackValue \<Rightarrow> bool" where
  "has_zoned_datetime_value (ZonedDatetimeValue _) = True"
| "has_zoned_datetime_value _ = False"

text \<open>Modelled from the spec: \<^verbatim>\<open>int_value()\<close> of the generated message; "querying an
  accessor for the wrong variant yields a defined default (zero, empty string, false,
  0.0) rather than failing".\<close>

fun int_value :: "ProtoStackValue \<Rightarrow> int64" where
  "int_value (IntValue i) = i"
| "int_value _ = 0"

text \<open>Modelled from the spec: \<^verbatim>\<open>string_value()\<close> of the generated message, with the empty
  string as the default for another variant.\<close>

fun string_value :: "ProtoStackValue \<Rightarrow> string" where
  "string_value (StringValue str) = str"
| "string_value _ = []"

text \<open>Modelled from the spec: \<^verbatim>\<open>bool_value()\<close> of the generated message, with \<open>False\<close> as
  the default for another variant.\<close>

fun bool_value :: "ProtoStackValue \<Rightarrow> bool" where
  "bool_value (BoolValue b) = b"
| "bool_value _ = False"

text \<open>Modelled from the spec: \<^verbatim>\<open>float_value()\<close> of the generated message, with \<open>0.0\<close> as
  the default for another variant.\<close>

fun float_value :: "ProtoStackValue \<Rightarrow> double" where
  "float_value (FloatValue d) = d"
| "float_value _ = 0"

text \<open>Modelled from the spec: the items of \<^verbatim>\<open>array_value()\<close>, an "ordered sequence of
  Value"; \<^verbatim>\<open>items_size()\<close> is its length and \<^verbatim>\<open>items(i)\<close> its \<open>i\<close>-th element.\<close>

fun array_items :: "ProtoStackValue \<Rightarrow> ProtoStackValue list" where
  "array_items (ArrayValue vs) = vs"
| "array_items _ = []"

text \<open>
  Modelled from the spec: the message \<^verbatim>\<open>forthic::ErrorInfo\<close> of the generated header,
  "ErrorInfo { message: string, runtime: string, error\_type: string }".
\<close>

record ProtoErrorInfo =
  proto_message :: string
  proto_runtime :: string
  proto_error_type :: string

text \<open>
  Modelled from the spec: the message \<^verbatim>\<open>ExecuteWordRequest\<close> of the generated header,
  "Request { word\_name: string, stack: Value[] }".
\<close>

record ExecuteWordRequest =
  req_word_name :: string
  req_stack :: "ProtoStackValue list"

text \<open>
  Modelled from the spec: the message \<^verbatim>\<open>ExecuteWordResponse\<close> of the generated header,
  with a result stack and an optional error: \<^verbatim>\<open>has_error()\<close> holds when \<open>resp_error\<close>
  is \<open>Some e\<close>, and \<^verbatim>\<open>error()\<close> is then \<open>e\<close>.
\<close>

record ExecuteWordResponse =
  result_stack :: "ProtoStackValue list"
  resp_error :: "ProtoErrorInfo option"

subsection \<open>The structures of the wrapper\<close>

text \<open>
  \<^verbatim>\<open>struct StackValue\<close> has the one member \<^verbatim>\<open>proto_value\<close>, so a heap of
  \<open>ProtoStackValue\<close> holds the \<^verbatim>\<open>StackValue\<close> objects. A \<^verbatim>\<open>GrpcClient\<close> holds a
  channel and a stub on it; the channel is known by its target address.
\<close>

record ErrorInfo =
  message :: string
  runtime :: string
  error_type :: string

record GrpcClient =
  channel_target :: string

text \<open>
  The state the wrapper works on: the four heaps and, for the world outside, the
  requests that have gone out on a channel, oldest first.
\<close>

record state =
  stack_values :: "ProtoStackValue heap"
  value_arrays :: "pointer list heap"
  error_infos :: "ErrorInfo heap"
  clients :: "GrpcClient heap"
  rpc_log :: "(GrpcClient \<times> ExecuteWordRequest) list"

definition init_state :: state where
  "init_state =
     \<lparr>stack_values = [], value_arrays = [], error_infos = [], clients = [], rpc_log = []\<rparr>"

text \<open>\<^verbatim>\<open>new StackValue()\<close>: a new object whose message has no field set.\<close>

definition new_StackValue :: "state \<Rightarrow> addr \<times> state" where
  "new_StackValue s =
     (case alloc (stack_values s) ValueNotSet of
        (a, hp) \<Rightarrow> (a, s\<lparr>stack_values := hp\<rparr>))"

text \<open>An assignment to \<^verbatim>\<open>proto_value\<close> (or to a field of it) of a live object.\<close>

definition set_proto_value :: "state \<Rightarrow> addr \<Rightarrow> ProtoStackValue \<Rightarrow> state" where
  "set_proto_value s a v = s\<lparr>stack_values := store (stack_values s) a v\<rparr>"

subsection \<open>StackValue API\<close>

definition stack_value_create_null :: "state \<Rightarrow> pointer \<times> state" where
  "stack_value_create_null s =
     (case new_StackValue s of (a, s1) \<Rightarrow> (Ptr a, set_proto_value s1 a NullValue))"

definition stack_value_create_int :: "state \<Rightarrow> int64 \<Rightarrow> pointer \<times> state" where
  "stack_value_create_int s val =
     (case new_StackValue s of (a, s1) \<Rightarrow> (Ptr a, set_proto_value s1 a (IntValue val)))"

text \<open>The \<^verbatim>\<open>const char*\<close> argument is \<open>None\<close> when it is null.\<close>

definition stack_value_create_string :: "state \<Rightarrow> string option \<Rightarrow> fault + pointer \<times> state" where
  "stack_value_create_string s val =
     (case new_StackValue s of
        (a, s1) \<Rightarrow>
          (case val of
             None \<Rightarrow> Inl NullDereference
           | Some str \<Rightarrow> Inr (Ptr a, set_proto_value s1 a (StringValue str))))"

definition stack_value_create_bool :: "state \<Rightarrow> bool \<Rightarrow> pointer \<times> state" where
  "stack_value_create_bool s val =
     (case new_StackValue s of (a, s1) \<Rightarrow> (Ptr a, set_proto_value s1 a (BoolValue val)))"

definition stack_value_create_float :: "state \<Rightarrow> double \<Rightarrow> pointer \<times> state" where
  "stack_value_create_float s val =
     (case new_StackValue s of (a, s1) \<Rightarrow> (Ptr a, set_proto_value s1 a (FloatValue val)))"

text \<open>
  The loop of \<^verbatim>\<open>stack_value_create_array\<close>: \<open>a\<close> is the new object, whose array
  grows by a copy of the message of each item; the items are the first \<^verbatim>\<open>len\<close>
  entries of \<^verbatim>\<open>items\<close>.
\<close>

fun add_items_loop :: "state \<Rightarrow> addr \<Rightarrow> pointer list \<Rightarrow> fault + state" where
  "add_items_loop s a [] = Inr s"
| "add_items_loop s a (p # ps) =
     (case deref (stack_values s) p of
        Inl f \<Rightarrow> Inl f
      | Inr v \<Rightarrow>
          (case deref (stack_values s) (Ptr a) of
             Inl f \<Rightarrow> Inl f
           | Inr arr \<Rightarrow>
               add_items_loop (set_proto_value s a (ArrayValue (array_items arr @ [v]))) a ps))"

definition stack_value_create_array :: "state \<Rightarrow> pointer list \<Rightarrow> fault + pointer \<times> state" where
  "stack_value_create_array s items =
     (case new_StackValue s of
        (a, s1) \<Rightarrow>
          (case add_items_loop (set_proto_value s1 a (ArrayValue [])) a items of
             Inl f \<Rightarrow> Inl f
           | Inr s2 \<Rightarrow> Inr (Ptr a, s2)))"

definition stack_value_get_type :: "state \<Rightarrow> pointer \<Rightarrow> fault + StackValueType" where
  "stack_value_get_type s val =
     (if val = NullPtr then Inr STACK_VALUE_NULL
      else case deref (stack_values s) val of
        Inl f \<Rightarrow> Inl f
      | Inr proto \<Rightarrow>
          Inr (if has_null_value proto then STACK_VALUE_NULL
               else if has_int_value proto then STACK_VALUE_INT
               else if has_string_value proto then STACK_VALUE_STRING
               else if has_bool_value proto then STACK_VALUE_BOOL
               else if has_float_value proto then STACK_VALUE_FLOAT
               else if has_array_value proto then STACK_VALUE_ARRAY
               else if has_record_value proto then STACK_VALUE_RECORD
               else if has_instant_value proto then STACK_VALUE_INSTANT
               else if has_plain_date_value proto then STACK_VALUE_PLAIN_DATE
               else if has_zoned_datetime_value proto then STACK_VALUE_ZONED_DATETIME
               else STACK_VALUE_NULL))"

definition stack_value_get_int :: "state \<Rightarrow> pointer \<Rightarrow> fault + int64" where
  "stack_value_get_int s val =
     (if val \<noteq> NullPtr
      then (case deref (stack_values s) val of Inl f \<Rightarrow> Inl f | Inr proto \<Rightarrow> Inr (int_value proto))
      else Inr 0)"

definition stack_value_get_string :: "state \<Rightarrow> pointer \<Rightarrow> fault + string" where
  "stack_value_get_string s val =
     (if val \<noteq> NullPtr
      then (case deref (stack_values s) val of Inl f \<Rightarrow> Inl f | Inr proto \<Rightarrow> Inr (string_value proto))
      else Inr [])"

definition stack_value_get_bool :: "state \<Rightarrow> pointer \<Rightarrow> fault + bool" where
  "stack_value_get_bool s val =
     (if val \<noteq> NullPtr
      then (case deref (stack_values s) val of Inl f \<Rightarrow> Inl f | Inr proto \<Rightarrow> Inr (bool_value proto))
      else Inr False)"

definition stack_value_get_float :: "state \<Rightarrow> pointer \<Rightarrow> fault + double" where
  "stack_value_get_float s val =
     (if val \<noteq> NullPtr
      then (case deref (stack_values s) val of Inl f \<Rightarrow> Inl f | Inr proto \<Rightarrow> Inr (float_value proto))
      else Inr 0)"

text \<open>
  \<^verbatim>\<open>malloc(sizeof(StackValue*) * len)\<close>: a new block of \<open>len\<close> pointers. Its content is
  indeterminate in C; the model fills it with null pointers, and both callers
  overwrite every entry. A request for a block of length 0 is taken to return a
  block too, as the C library of a Linux system does.
\<close>

definition malloc_array :: "state \<Rightarrow> nat \<Rightarrow> addr \<times> state" where
  "malloc_array s len =
     (case alloc (value_arrays s) (replicate len NullPtr) of
        (arr, hp) \<Rightarrow> (arr, s\<lparr>value_arrays := hp\<rparr>))"

text \<open>The assignment \<^verbatim>\<open>items[i] = item\<close> into the block at \<open>arr\<close>.\<close>

definition array_set :: "state \<Rightarrow> addr \<Rightarrow> nat \<Rightarrow> pointer \<Rightarrow> state" where
  "array_set s arr i p =
     (case lookup (value_arrays s) arr of
        None \<Rightarrow> s
      | Some ps \<Rightarrow> s\<lparr>value_arrays := store (value_arrays s) arr (ps[i := p])\<rparr>)"

text \<open>
  The copy-out loop, which \<^verbatim>\<open>stack_value_get_array\<close> and
  \<^verbatim>\<open>grpc_client_execute_word\<close> both have: from index \<open>i\<close> on, each message of the
  sequence goes into a new \<^verbatim>\<open>StackValue\<close>, whose pointer goes into the block. The
  source reads the sequence through a reference to a message that the loop does not
  write to, so the model takes the sequence as it is when the loop starts.
\<close>

fun copy_out_loop :: "state \<Rightarrow> addr \<Rightarrow> nat \<Rightarrow> ProtoStackValue list \<Rightarrow> state" where
  "copy_out_loop s arr i [] = s"
| "copy_out_loop s arr i (v # vs) =
     (case new_StackValue s of
        (a, s1) \<Rightarrow>
          copy_out_loop (array_set (set_proto_value s1 a v) arr i (Ptr a)) arr (Suc i) vs)"

definition stack_value_get_array ::
  "state \<Rightarrow> pointer \<Rightarrow> pointer out_slot \<Rightarrow> nat out_slot
     \<Rightarrow> fault + state \<times> pointer out_slot \<times> nat out_slot" where
  "stack_value_get_array s val out_items out_len =
     (if val = NullPtr \<or> out_items = NoSlot \<or> out_len = NoSlot then Inr (s, out_items, out_len)
      else case deref (stack_values s) val of
        Inl f \<Rightarrow> Inl f
      | Inr proto \<Rightarrow>
          if \<not> has_array_value proto then Inr (s, Slot NullPtr, Slot 0)
          else
            (let array = array_items proto; len = length array in
             case malloc_array s len of
               (items, s1) \<Rightarrow>
                 Inr (copy_out_loop s1 items 0 array, Slot (Ptr items), Slot len)))"

text \<open>
  \<^verbatim>\<open>delete value\<close>: nothing for a null pointer; the object must be live otherwise.
\<close>

definition stack_value_destroy :: "state \<Rightarrow> pointer \<Rightarrow> fault + state" where
  "stack_value_destroy s val =
     (case val of
        NullPtr \<Rightarrow> Inr s
      | Ptr a \<Rightarrow>
          (case lookup (stack_values s) a of
             None \<Rightarrow> Inl InvalidPointer
           | Some _ \<Rightarrow> Inr (s\<lparr>stack_values := release (stack_values s) a\<rparr>)))"

subsection \<open>Client API\<close>

text \<open>
  \<^verbatim>\<open>grpc::CreateChannel\<close> connects lazily: it records the target and sends nothing.
\<close>

definition grpc_client_create ::
  "state \<Rightarrow> string option \<Rightarrow> pointer out_slot \<Rightarrow> GrpcErrorCode \<times> state \<times> pointer out_slot" where
  "grpc_client_create s address out_client =
     (case address of
        None \<Rightarrow> (GRPC_ERROR_INVALID_ARGUMENT, s, out_client)
      | Some target \<Rightarrow>
          (case out_client of
             NoSlot \<Rightarrow> (GRPC_ERROR_INVALID_ARGUMENT, s, out_client)
           | Slot _ \<Rightarrow>
               (case alloc (clients s) \<lparr>channel_target = target\<rparr> of
                  (client, hp) \<Rightarrow> (GRPC_OK, s\<lparr>clients := hp\<rparr>, Slot (Ptr client)))))"

text \<open>The three output parameters of \<^verbatim>\<open>grpc_client_execute_word\<close>.\<close>

record word_outs =
  out_result_stack :: "pointer out_slot"
  out_result_len :: "nat out_slot"
  out_error :: "pointer out_slot"

text \<open>The loop that builds the request: a copy of the message of each stack entry.\<close>

fun add_stack_loop ::
  "ProtoStackValue heap \<Rightarrow> ExecuteWordRequest \<Rightarrow> pointer list \<Rightarrow> fault + ExecuteWordRequest" where
  "add_stack_loop hp request [] = Inr request"
| "add_stack_loop hp request (p # ps) =
     (case deref hp p of
        Inl f \<Rightarrow> Inl f
      | Inr v \<Rightarrow> add_stack_loop hp (request\<lparr>req_stack := req_stack request @ [v]\<rparr>) ps)"

text \<open>
  What the function does with a response that arrived with an OK status. The write
  through \<^verbatim>\<open>out_error\<close> is not guarded by the function's argument check.
\<close>

definition unpack_response ::
  "state \<Rightarrow> ExecuteWordResponse \<Rightarrow> word_outs \<Rightarrow> state \<times> (fault + GrpcErrorCode \<times> word_outs)" where
  "unpack_response s response outs =
     (case resp_error response of
        Some e \<Rightarrow>
          (case alloc (error_infos s)
                  \<lparr>message = proto_message e, runtime = proto_runtime e,
                   error_type = proto_error_type e\<rparr> of
             (err, hp) \<Rightarrow>
               (let s1 = s\<lparr>error_infos := hp\<rparr> in
                if out_error outs = NoSlot then (s1, Inl NullDereference)
                else (s1, Inr (GRPC_OK,
                        \<lparr>out_result_stack = Slot NullPtr, out_result_len = Slot 0,
                         out_error = Slot (Ptr err)\<rparr>))))
      | None \<Rightarrow>
          (let result_len = length (result_stack response) in
           case malloc_array s result_len of
             (result_array, s1) \<Rightarrow>
               (let s2 = copy_out_loop s1 result_array 0 (result_stack response) in
                if out_error outs = NoSlot then (s2, Inl NullDereference)
                else (s2, Inr (GRPC_OK,
                        \<lparr>out_result_stack = Slot (Ptr result_array),
                         out_result_len = Slot result_len,
                         out_error = Slot NullPtr\<rparr>)))))"

text \<open>
  \<open>remote\<close> is the other end of the channel: what the blocking call
  \<^verbatim>\<open>stub->ExecuteWord\<close> comes back with for a request.
\<close>

definition grpc_client_execute_word ::
  "(GrpcClient \<Rightarrow> ExecuteWordRequest \<Rightarrow> Status \<times> ExecuteWordResponse)
     \<Rightarrow> state \<Rightarrow> pointer \<Rightarrow> string option \<Rightarrow> pointer list \<Rightarrow> word_outs
     \<Rightarrow> state \<times> (fault + GrpcErrorCode \<times> word_outs)" where
  "grpc_client_execute_word remote s client word_name stack outs =
     (if client = NullPtr \<or> word_name = None \<or> out_result_stack outs = NoSlot
         \<or> out_result_len outs = NoSlot
      then (s, Inr (GRPC_ERROR_INVALID_ARGUMENT, outs))
      else
        case word_name of
          None \<Rightarrow> (s, Inr (GRPC_ERROR_INVALID_ARGUMENT, outs))
        | Some name \<Rightarrow>
            (case add_stack_loop (stack_values s) \<lparr>req_word_name = name, req_stack = []\<rparr> stack of
               Inl f \<Rightarrow> (s, Inl f)
             | Inr request \<Rightarrow>
                 (case deref (clients s) client of
                    Inl f \<Rightarrow> (s, Inl f)
                  | Inr c \<Rightarrow>
                      (case remote c request of
                         (status, response) \<Rightarrow>
                           (let s1 = s\<lparr>rpc_log := rpc_log s @ [(c, request)]\<rparr> in
                            if \<not> ok status then (s1, Inr (status_to_error_code status, outs))
                            else unpack_response s1 response outs)))))"

definition grpc_client_destroy :: "state \<Rightarrow> pointer \<Rightarrow> fault + state" where
  "grpc_client_destroy s client =
     (case client of
        NullPtr \<Rightarrow> Inr s
      | Ptr a \<Rightarrow>
          (case lookup (clients s) a of
             None \<Rightarrow> Inl InvalidPointer
           | Some _ \<Rightarrow> Inr (s\<lparr>clients := release (clients s) a\<rparr>)))"

subsection \<open>ErrorInfo API\<close>

definition error_info_get_message :: "state \<Rightarrow> pointer \<Rightarrow> fault + string" where
  "error_info_get_message s err =
     (if err \<noteq> NullPtr
      then (case deref (error_infos s) err of Inl f \<Rightarrow> Inl f | Inr e \<Rightarrow> Inr (message e))
      else Inr [])"

definition error_info_get_runtime :: "state \<Rightarrow> pointer \<Rightarrow> fault + string" where
  "error_info_get_runtime s err =
     (if err \<noteq> NullPtr
      then (case deref (error_infos s) err of Inl f \<Rightarrow> Inl f | Inr e \<Rightarrow> Inr (runtime e))
      else Inr [])"

definition error_info_get_error_type :: "state \<Rightarrow> pointer \<Rightarrow> fault + string" where
  "error_info_get_error_type s err =
     (if err \<noteq> NullPtr
      then (case deref (error_infos s) err of Inl f \<Rightarrow> Inl f | Inr e \<Rightarrow> Inr (error_type e))
      else Inr [])"

definition error_info_destroy :: "state \<Rightarrow> pointer \<Rightarrow> fault + state" where
  "error_info_destroy s err =
     (case err of
        NullPtr \<Rightarrow> Inr s
      | Ptr a \<Rightarrow>
          (case lookup (error_infos s) a of
             None \<Rightarrow> Inl InvalidPointer
           | Some _ \<Rightarrow> Inr (s\<lparr>error_infos := release (error_infos s) a\<rparr>)))"

subsection \<open>Scenarios\<close>

text \<open>
  A process that holds one client and the two stack values \<open>Int(2)\<close> and \<open>Int(3)\<close>,
  and four collaborators at the other end of the channel: one that implements
  \<open>add\<close> as the integer sum of the stack, one that knows no word, one that sends
  the stack back, and one that cannot be reached.
\<close>

definition demo_client :: GrpcClient where
  "demo_client = \<lparr>channel_target = ''localhost:50051''\<rparr>"

definition demo_state :: state where
  "demo_state =
     \<lparr>stack_values = [Some (IntValue 2), Some (IntValue 3)], value_arrays = [],
      error_infos = [], clients = [Some demo_client], rpc_log = []\<rparr>"

definition demo_outs :: word_outs where
  "demo_outs = \<lparr>out_result_stack = Slot NullPtr, out_result_len = Slot 0, out_error = Slot NullPtr\<rparr>"

definition ok_status :: Status where
  "ok_status = \<lparr>error_code = OK, error_message = []\<rparr>"

definition remote_add :: "GrpcClient \<Rightarrow> ExecuteWordRequest \<Rightarrow> Status \<times> ExecuteWordResponse" where
  "remote_add c request =
     (ok_status,
      \<lparr>result_stack = [IntValue (sum_list (map int_value (req_stack request)))],
       resp_error = None\<rparr>)"

definition remote_unknown_word ::
  "GrpcClient \<Rightarrow> ExecuteWordRequest \<Rightarrow> Status \<times> ExecuteWordResponse" where
  "remote_unknown_word c request =
     (ok_status,
      \<lparr>result_stack = [],
       resp_error = Some \<lparr>proto_message = ''Unknown word: '' @ req_word_name request,
                          proto_runtime = ''zig'', proto_error_type = ''UnknownWord''\<rparr>\<rparr>)"

definition remote_echo :: "GrpcClient \<Rightarrow> ExecuteWordRequest \<Rightarrow> Status \<times> ExecuteWordResponse" where
  "remote_echo c request = (ok_status, \<lparr>result_stack = req_stack request, resp_error = None\<rparr>)"

definition remote_down :: "GrpcClient \<Rightarrow> ExecuteWordRequest \<Rightarrow> Status \<times> ExecuteWordResponse" where
  "remote_down c request =
     (\<lparr>error_code = UNAVAILABLE, error_message = ''connection refused''\<rparr>,
      \<lparr>result_stack = [], resp_error = None\<rparr>)"

section \<open>Theorems\<close>

subsection \<open>Heaps, loops and calls\<close>

lemmas StatusCode_defs =
  OK_def CANCELLED_def UNKNOWN_def INVALID_ARGUMENT_def DEADLINE_EXCEEDED_def
  NOT_FOUND_def ALREADY_EXISTS_def PERMISSION_DENIED_def RESOURCE_EXHAUSTED_def
  FAILED_PRECONDITION_def ABORTED_def OUT_OF_RANGE_def UNIMPLEMENTED_def INTERNAL_def
  UNAVAILABLE_def DATA_LOSS_def UNAUTHENTICATED_def

lemmas demo_defs = demo_state_def demo_client_def demo_outs_def ok_status_def
  remote_add_def remote_unknown_word_def remote_echo_def remote_down_def

lemma status_to_error_code_not_ok:
  "\<not> ok status \<Longrightarrow> status_to_error_code status \<noteq> GRPC_OK"
  by (simp add: status_to_error_code_def)

lemma lookup_append_new:
  "lookup (hp @ [y]) a = (if a = length hp then y else lookup hp a)"
  by (auto simp: lookup_def nth_append)

lemma lookup_append_heap:
  "lookup (hp @ hp') a = (if a < length hp then lookup hp a else lookup hp' (a - length hp))"
  by (auto simp: lookup_def nth_append)

lemma lookup_update:
  "lookup (hp[a := y]) b = (if b = a \<and> a < length hp then y else lookup hp b)"
  by (auto simp: lookup_def)

lemma lookup_release:
  "lookup (release hp a) b = (if b = a \<and> a < length hp then None else lookup hp b)"
  by (simp add: release_def lookup_update)

lemma lookup_Some_less: "lookup hp a = Some x \<Longrightarrow> a < length hp"
  by (simp add: lookup_def split: if_splits)

lemma lookup_length: "lookup hp (length hp) = None"
  by (simp add: lookup_def)

lemma lookup_beyond: "length hp \<le> a \<Longrightarrow> lookup hp a = None"
  by (simp add: lookup_def)

lemma lookup_map_Some: "i < length vs \<Longrightarrow> lookup (map Some vs) i = Some (vs ! i)"
  by (simp add: lookup_def)

lemma store_same: "lookup hp a = Some x \<Longrightarrow> store hp a x = hp"
proof -
  assume "lookup hp a = Some x"
  then have "hp ! a = Some x"
    by (simp add: lookup_def split: if_splits)
  then show ?thesis
    using list_update_id [of hp a] by (simp add: store_def)
qed

lemma deref_Inr_iff: "deref hp p = Inr x \<longleftrightarrow> (\<exists>a. p = Ptr a \<and> lookup hp a = Some x)"
  by (auto simp: deref_def split: pointer.splits option.splits)

lemma live_items:
  "map (deref hp) ps = map Inr vs \<Longrightarrow> p \<in> set ps \<Longrightarrow> \<exists>a v. p = Ptr a \<and> lookup hp a = Some v"
proof (induction ps arbitrary: vs)
  case Nil
  then show ?case by simp
next
  case (Cons q qs)
  then obtain w ws where vs: "vs = w # ws" by (cases vs) auto
  with Cons.prems have q: "deref hp q = Inr w" and rest: "map (deref hp) qs = map Inr ws"
    by simp_all
  show ?case
  proof (cases "p = q")
    case True
    with q show ?thesis by (auto simp: deref_Inr_iff)
  next
    case False
    with Cons.prems have "p \<in> set qs" by simp
    with Cons.IH rest show ?thesis by blast
  qed
qed

lemma map_deref_nth:
  "map (deref hp) ps = map Inr vs \<Longrightarrow> i < length ps \<Longrightarrow> deref hp (ps ! i) = Inr (vs ! i)"
proof -
  assume a: "map (deref hp) ps = map Inr vs" and i: "i < length ps"
  from a have len: "length ps = length vs"
    by (rule map_eq_imp_length_eq)
  have "deref hp (ps ! i) = map (deref hp) ps ! i"
    using i by simp
  also have "\<dots> = map Inr vs ! i"
    by (simp only: a)
  also have "\<dots> = Inr (vs ! i)"
    using i len by simp
  finally show ?thesis .
qed

lemma deref_grow:
  "map (deref hp) ps = map Inr vs \<Longrightarrow> map (deref (hp @ hp')) ps = map Inr vs"
proof -
  assume a: "map (deref hp) ps = map Inr vs"
  have "\<And>p. p \<in> set ps \<Longrightarrow> deref (hp @ hp') p = deref hp p"
  proof -
    fix p assume "p \<in> set ps"
    with a obtain b v where "p = Ptr b" "lookup hp b = Some v"
      using live_items by blast
    then show "deref (hp @ hp') p = deref hp p"
      by (simp add: deref_def lookup_append_heap lookup_Some_less)
  qed
  then have "map (deref (hp @ hp')) ps = map (deref hp) ps"
    by simp
  with a show ?thesis by simp
qed

lemma deref_new_values:
  "map (deref (hp @ map Some vs)) (map Ptr [length hp ..< length hp + length vs]) = map Inr vs"
  by (rule nth_equalityI) (simp_all add: deref_def lookup_append_heap lookup_def)

lemma add_stack_loop_live:
  "map (deref hp) ps = map Inr vs \<Longrightarrow>
   add_stack_loop hp request ps = Inr (request\<lparr>req_stack := req_stack request @ vs\<rparr>)"
proof (induction ps arbitrary: vs request)
  case Nil
  then show ?case by simp
next
  case (Cons q qs)
  then obtain w ws where vs: "vs = w # ws" by (cases vs) auto
  with Cons.prems have q: "deref hp q = Inr w" and rest: "map (deref hp) qs = map Inr ws"
    by simp_all
  from Cons.IH [OF rest] q vs show ?case by simp
qed

lemma new_StackValue_then_set:
  "new_StackValue s = (a, s1) \<Longrightarrow>
   a = length (stack_values s) \<and>
   set_proto_value s1 a v = s\<lparr>stack_values := stack_values s @ [Some v]\<rparr>"
  by (auto simp: new_StackValue_def alloc_def set_proto_value_def store_def)

lemma set_proto_value_twice:
  "set_proto_value (set_proto_value s a v) a w = set_proto_value s a w"
  by (simp add: set_proto_value_def store_def)

lemma add_items_loop_live:
  "lookup (stack_values s) a = Some (ArrayValue acc) \<Longrightarrow>
   map (deref (stack_values s)) ps = map Inr vs \<Longrightarrow>
   Ptr a \<notin> set ps \<Longrightarrow>
   add_items_loop s a ps = Inr (set_proto_value s a (ArrayValue (acc @ vs)))"
proof (induction ps arbitrary: vs s acc)
  case Nil
  then have "set_proto_value s a (ArrayValue acc) = s"
    by (simp add: set_proto_value_def store_same)
  with Nil show ?case by simp
next
  case (Cons q qs)
  then obtain w ws where vs: "vs = w # ws" by (cases vs) auto
  with Cons.prems have q: "deref (stack_values s) q = Inr w"
    and rest: "map (deref (stack_values s)) qs = map Inr ws"
    by simp_all
  let ?s = "set_proto_value s a (ArrayValue (acc @ [w]))"
  from Cons.prems(1) have less: "a < length (stack_values s)"
    by (rule lookup_Some_less)
  then have 1: "lookup (stack_values ?s) a = Some (ArrayValue (acc @ [w]))"
    by (simp add: set_proto_value_def store_def lookup_update)
  have "\<And>p. p \<in> set qs \<Longrightarrow> deref (stack_values ?s) p = deref (stack_values s) p"
  proof -
    fix p assume "p \<in> set qs"
    with Cons.prems(3) have "p \<noteq> Ptr a" by auto
    then show "deref (stack_values ?s) p = deref (stack_values s) p"
      by (cases p) (simp_all add: deref_def set_proto_value_def store_def lookup_update)
  qed
  then have "map (deref (stack_values ?s)) qs = map (deref (stack_values s)) qs"
    by simp
  with rest have 2: "map (deref (stack_values ?s)) qs = map Inr ws" by simp
  from Cons.prems(3) have 3: "Ptr a \<notin> set qs" by simp
  from Cons.IH [OF 1 2 3] q Cons.prems(1) vs show ?case
    by (simp add: deref_def set_proto_value_twice)
qed

lemma create_array_eq:
  assumes "map (deref (stack_values s)) items = map Inr vs"
  shows "stack_value_create_array s items =
         Inr (Ptr (length (stack_values s)),
              s\<lparr>stack_values := stack_values s @ [Some (ArrayValue vs)]\<rparr>)"
proof -
  let ?a = "length (stack_values s)"
  let ?s = "s\<lparr>stack_values := stack_values s @ [Some (ArrayValue [])]\<rparr>"
  have new: "new_StackValue s = (?a, s\<lparr>stack_values := stack_values s @ [Some ValueNotSet]\<rparr>)"
    by (simp add: new_StackValue_def alloc_def)
  have set: "set_proto_value (snd (new_StackValue s)) ?a (ArrayValue []) = ?s"
    using new_StackValue_then_set [OF new] new by simp
  have 1: "lookup (stack_values ?s) ?a = Some (ArrayValue [])"
    by (simp add: lookup_append_new)
  have 2: "map (deref (stack_values ?s)) items = map Inr vs"
    using deref_grow [OF assms] by simp
  have 3: "Ptr ?a \<notin> set items"
  proof
    assume "Ptr ?a \<in> set items"
    with assms obtain b v where "Ptr ?a = Ptr b" "lookup (stack_values s) b = Some v"
      using live_items by blast
    then show False by (auto dest: lookup_Some_less)
  qed
  have "add_items_loop ?s ?a items = Inr (set_proto_value ?s ?a (ArrayValue vs))"
    using add_items_loop_live [OF 1 2 3] by simp
  moreover have "set_proto_value ?s ?a (ArrayValue vs)
      = s\<lparr>stack_values := stack_values s @ [Some (ArrayValue vs)]\<rparr>"
    by (simp add: set_proto_value_def store_def)
  ultimately show ?thesis
    using new set by (simp add: stack_value_create_array_def)
qed

lemma copy_out_loop_stack_values:
  "stack_values (copy_out_loop s arr i vs) = stack_values s @ map Some vs"
proof (induction vs arbitrary: s i)
  case Nil
  then show ?case by simp
next
  case (Cons v vs)
  show ?case
    by (simp add: Cons.IH new_StackValue_def alloc_def set_proto_value_def store_def
        array_set_def split: option.splits)
qed

lemma copy_out_loop_others:
  "error_infos (copy_out_loop s arr i vs) = error_infos s
   \<and> clients (copy_out_loop s arr i vs) = clients s
   \<and> rpc_log (copy_out_loop s arr i vs) = rpc_log s"
proof (induction vs arbitrary: s i)
  case Nil
  then show ?case by simp
next
  case (Cons v vs)
  show ?case
    by (simp add: Cons.IH new_StackValue_def alloc_def set_proto_value_def
        array_set_def split: option.splits)
qed

lemma copy_out_loop_value_arrays:
  "lookup (value_arrays s) arr = Some ps \<Longrightarrow> i + length vs \<le> length ps \<Longrightarrow>
   value_arrays (copy_out_loop s arr i vs) =
     store (value_arrays s) arr
       (take i ps
        @ map Ptr [length (stack_values s) ..< length (stack_values s) + length vs]
        @ drop (i + length vs) ps)"
proof (induction vs arbitrary: s i ps)
  case Nil
  then show ?case by (simp add: store_same)
next
  case (Cons v vs)
  let ?n = "length (stack_values s)"
  let ?s = "array_set (set_proto_value (snd (new_StackValue s)) ?n v) arr i (Ptr ?n)"
  let ?ps = "ps[i := Ptr ?n]"
  from Cons.prems have i: "i < length ps" by simp
  from Cons.prems(1) have arr: "arr < length (value_arrays s)"
    by (rule lookup_Some_less)
  have step: "copy_out_loop s arr i (v # vs) = copy_out_loop ?s arr (Suc i) vs"
    by (simp add: new_StackValue_def alloc_def)
  have va: "value_arrays ?s = store (value_arrays s) arr ?ps"
    using Cons.prems(1)
    by (simp add: array_set_def new_StackValue_def alloc_def set_proto_value_def)
  have len: "length (stack_values ?s) = Suc ?n"
    using Cons.prems(1)
    by (simp add: array_set_def new_StackValue_def alloc_def set_proto_value_def store_def)
  have 1: "lookup (value_arrays ?s) arr = Some ?ps"
    using arr by (simp add: va store_def lookup_update)
  have 2: "Suc i + length vs \<le> length ?ps"
    using Cons.prems(2) by simp
  have t: "take (Suc i) ?ps = take i ps @ [Ptr ?n]"
    using i by (simp add: take_Suc_conv_app_nth)
  have d: "drop (Suc i + length vs) ?ps = drop (Suc i + length vs) ps"
    by simp
  have u: "[?n ..< ?n + length (v # vs)] = ?n # [Suc ?n ..< Suc ?n + length vs]"
    by (simp add: upt_conv_Cons del: upt_Suc)
  from Cons.IH [OF 1 2] show ?case
    by (simp only: step va len t d u)
       (simp add: store_def)
qed

lemma copy_out_new_block:
  "copy_out_loop (s\<lparr>value_arrays := value_arrays s @ [Some (replicate (length vs) NullPtr)]\<rparr>)
     (length (value_arrays s)) 0 vs =
   s\<lparr>stack_values := stack_values s @ map Some vs,
      value_arrays := value_arrays s
        @ [Some (map Ptr [length (stack_values s) ..< length (stack_values s) + length vs])]\<rparr>"
proof -
  let ?arr = "length (value_arrays s)"
  let ?s1 = "s\<lparr>value_arrays := value_arrays s @ [Some (replicate (length vs) NullPtr)]\<rparr>"
  let ?s2 = "copy_out_loop ?s1 ?arr 0 vs"
  have 1: "lookup (value_arrays ?s1) ?arr = Some (replicate (length vs) NullPtr)"
    by (simp add: lookup_append_new)
  have va: "value_arrays ?s2 = value_arrays s
      @ [Some (map Ptr [length (stack_values s) ..< length (stack_values s) + length vs])]"
    using copy_out_loop_value_arrays [OF 1, of 0 vs] by (simp add: store_def)
  have sv: "stack_values ?s2 = stack_values s @ map Some vs"
    by (simp add: copy_out_loop_stack_values)
  have ot: "error_infos ?s2 = error_infos s \<and> clients ?s2 = clients s \<and> rpc_log ?s2 = rpc_log s"
    using copy_out_loop_others [of ?s1 ?arr 0 vs] by simp
  show ?thesis
    using va sv ot by (cases ?s2, cases s) simp
qed

lemma get_array_eq:
  assumes "deref (stack_values s) val = Inr (ArrayValue vs)"
  shows "stack_value_get_array s val (Slot x) (Slot y) =
     Inr (s\<lparr>stack_values := stack_values s @ map Some vs,
             value_arrays := value_arrays s
               @ [Some (map Ptr [length (stack_values s) ..< length (stack_values s) + length vs])]\<rparr>,
          Slot (Ptr (length (value_arrays s))), Slot (length vs))"
proof -
  from assms have "val \<noteq> NullPtr"
    by (auto simp: deref_def)
  with assms show ?thesis
    by (simp add: stack_value_get_array_def malloc_array_def alloc_def Let_def
        copy_out_new_block)
qed

lemma destroy_live:
  "lookup (stack_values s) a = Some v \<Longrightarrow>
   stack_value_destroy s (Ptr a) = Inr (s\<lparr>stack_values := release (stack_values s) a\<rparr>)"
  by (simp add: stack_value_destroy_def)

lemma get_type_same_content:
  "deref (stack_values s) p = Inr v \<Longrightarrow> deref (stack_values s') q = Inr v \<Longrightarrow>
   stack_value_get_type s' q = stack_value_get_type s p"
  by (auto simp: stack_value_get_type_def deref_def)

lemma unpack_response_error:
  assumes "resp_error response = Some e" and "out_error outs = Slot x"
  shows "unpack_response s response outs =
     (s\<lparr>error_infos := error_infos s
          @ [Some \<lparr>message = proto_message e, runtime = proto_runtime e,
                   error_type = proto_error_type e\<rparr>]\<rparr>,
      Inr (GRPC_OK,
           \<lparr>out_result_stack = Slot NullPtr, out_result_len = Slot 0,
            out_error = Slot (Ptr (length (error_infos s)))\<rparr>))"
  using assms by (simp add: unpack_response_def alloc_def)

lemma unpack_response_result:
  assumes "resp_error response = None" and "out_error outs = Slot x"
  shows "unpack_response s response outs =
     (s\<lparr>stack_values := stack_values s @ map Some (result_stack response),
        value_arrays := value_arrays s
          @ [Some (map Ptr [length (stack_values s) ..<
                            length (stack_values s) + length (result_stack response)])]\<rparr>,
      Inr (GRPC_OK,
           \<lparr>out_result_stack = Slot (Ptr (length (value_arrays s))),
            out_result_len = Slot (length (result_stack response)),
            out_error = Slot NullPtr\<rparr>))"
  using assms
  by (simp add: unpack_response_def malloc_array_def alloc_def Let_def copy_out_new_block)

lemma execute_word_call:
  assumes "deref (clients s) client = Inr c"
    and "map (deref (stack_values s)) stack = map Inr vs"
    and "out_result_stack outs \<noteq> NoSlot" and "out_result_len outs \<noteq> NoSlot"
    and "remote c \<lparr>req_word_name = w, req_stack = vs\<rparr> = (status, response)"
  shows "grpc_client_execute_word remote s client (Some w) stack outs =
     (if \<not> ok status
      then (s\<lparr>rpc_log := rpc_log s @ [(c, \<lparr>req_word_name = w, req_stack = vs\<rparr>)]\<rparr>,
            Inr (status_to_error_code status, outs))
      else unpack_response
             (s\<lparr>rpc_log := rpc_log s @ [(c, \<lparr>req_word_name = w, req_stack = vs\<rparr>)]\<rparr>)
             response outs)"
proof -
  from assms(1) have nn: "client \<noteq> NullPtr"
    by (auto simp: deref_def)
  have req: "add_stack_loop (stack_values s) \<lparr>req_word_name = w, req_stack = []\<rparr> stack
      = Inr \<lparr>req_word_name = w, req_stack = vs\<rparr>"
    using add_stack_loop_live [OF assms(2)] by simp
  show ?thesis
    using nn req assms(1,3,4,5)
    by (simp add: grpc_client_execute_word_def Let_def)
qed

text \<open>
  The four arguments that the guard of \<^verbatim>\<open>grpc_client_execute_word\<close> does test.
\<close>

lemma execute_word_checked_arguments:
  "client = NullPtr \<or> word_name = None \<or> out_result_stack outs = NoSlot
     \<or> out_result_len outs = NoSlot \<Longrightarrow>
   grpc_client_execute_word remote s client word_name stack outs
     = (s, Inr (GRPC_ERROR_INVALID_ARGUMENT, outs))"
  by (auto simp: grpc_client_execute_word_def)

lemma demo_client_live: "deref (clients demo_state) (Ptr 0) = Inr demo_client"
  by (simp add: demo_state_def deref_def lookup_def)

lemma demo_stack_live:
  "map (deref (stack_values demo_state)) [Ptr 0, Ptr 1] = map Inr [IntValue 2, IntValue 3]"
  by (simp add: demo_state_def deref_def lookup_def)

subsection \<open>The two channels of a completed call\<close>

text \<open>
  C1: a call of \<^verbatim>\<open>grpc_client_execute_word\<close> with live arguments and all three output
  slots, whose status is OK. If the response carries an error, the function returns
  \<open>GRPC_OK\<close>, \<^verbatim>\<open>*out_error\<close> points to a newly allocated \<open>ErrorInfo\<close> with the
  message, runtime and error type of the response, \<^verbatim>\<open>*out_result_len\<close> is 0 and
  \<^verbatim>\<open>*out_result_stack\<close> is null. If it carries none, \<^verbatim>\<open>*out_error\<close> is null and the
  result block holds new values with the content of the result stack, in order. In
  no case are both the error and the result stack non-null.
\<close>

theorem C1_dual_channel:
  assumes client: "deref (clients s) client = Inr c"
    and stack: "map (deref (stack_values s)) stack = map Inr vs"
    and reply: "remote c \<lparr>req_word_name = w, req_stack = vs\<rparr> = (status, response)"
    and ok: "ok status"
    and outs: "outs = \<lparr>out_result_stack = Slot a, out_result_len = Slot b, out_error = Slot x\<rparr>"
  shows "(\<forall>e. resp_error response = Some e \<longrightarrow>
            (\<exists>s' err.
               grpc_client_execute_word remote s client (Some w) stack outs =
                 (s', Inr (GRPC_OK,
                           \<lparr>out_result_stack = Slot NullPtr, out_result_len = Slot 0,
                            out_error = Slot (Ptr err)\<rparr>))
               \<and> lookup (error_infos s) err = None
               \<and> lookup (error_infos s') err =
                   Some \<lparr>message = proto_message e, runtime = proto_runtime e,
                         error_type = proto_error_type e\<rparr>))
       \<and> (resp_error response = None \<longrightarrow>
            (\<exists>s' arr ps.
               grpc_client_execute_word remote s client (Some w) stack outs =
                 (s', Inr (GRPC_OK,
                           \<lparr>out_result_stack = Slot (Ptr arr),
                            out_result_len = Slot (length (result_stack response)),
                            out_error = Slot NullPtr\<rparr>))
               \<and> lookup (value_arrays s) arr = None
               \<and> lookup (value_arrays s') arr = Some ps
               \<and> map (deref (stack_values s')) ps = map Inr (result_stack response)))
       \<and> (\<forall>s' code outs'.
            grpc_client_execute_word remote s client (Some w) stack outs = (s', Inr (code, outs'))
            \<longrightarrow> out_error outs' = Slot NullPtr
                \<or> (out_result_stack outs' = Slot NullPtr \<and> out_result_len outs' = Slot 0))"
proof -
  let ?s1 = "s\<lparr>rpc_log := rpc_log s @ [(c, \<lparr>req_word_name = w, req_stack = vs\<rparr>)]\<rparr>"
  have call: "grpc_client_execute_word remote s client (Some w) stack outs
      = unpack_response ?s1 response outs"
    using execute_word_call [where remote = remote, OF client stack _ _ reply] ok outs by simp
  have oe: "out_error outs = Slot x"
    using outs by simp
  have err: "\<exists>s' err.
      grpc_client_execute_word remote s client (Some w) stack outs =
        (s', Inr (GRPC_OK,
                  \<lparr>out_result_stack = Slot NullPtr, out_result_len = Slot 0,
                   out_error = Slot (Ptr err)\<rparr>))
      \<and> lookup (error_infos s) err = None
      \<and> lookup (error_infos s') err =
          Some \<lparr>message = proto_message e, runtime = proto_runtime e,
                error_type = proto_error_type e\<rparr>"
    if e: "resp_error response = Some e" for e
    using unpack_response_error [OF e oe, of ?s1] call
    by (simp add: lookup_append_new lookup_length)
  have res: "\<exists>s' arr ps.
      grpc_client_execute_word remote s client (Some w) stack outs =
        (s', Inr (GRPC_OK,
                  \<lparr>out_result_stack = Slot (Ptr arr),
                   out_result_len = Slot (length (result_stack response)),
                   out_error = Slot NullPtr\<rparr>))
      \<and> lookup (value_arrays s) arr = None
      \<and> lookup (value_arrays s') arr = Some ps
      \<and> map (deref (stack_values s')) ps = map Inr (result_stack response)"
    if n: "resp_error response = None"
    using unpack_response_result [OF n oe, of ?s1] call
      deref_new_values [of "stack_values s" "result_stack response"]
    by (simp add: lookup_append_new lookup_length)
  have excl: "out_error outs' = Slot NullPtr
        \<or> (out_result_stack outs' = Slot NullPtr \<and> out_result_len outs' = Slot 0)"
    if r: "grpc_client_execute_word remote s client (Some w) stack outs = (s', Inr (code, outs'))"
    for s' code outs'
  proof (cases "resp_error response")
    case None
    from unpack_response_result [OF None oe, of ?s1] call r show ?thesis by auto
  next
    case (Some e)
    from unpack_response_error [OF Some oe, of ?s1] call r show ?thesis by auto
  qed
  from err res excl show ?thesis by blast
qed

text \<open>An instance of the theorem, with its hypotheses discharged.\<close>

theorem C1_dual_channel_witness:
  "(\<exists>s' err.
      grpc_client_execute_word remote_unknown_word demo_state (Ptr 0) (Some ''missing_word'')
          [Ptr 0, Ptr 1] demo_outs =
        (s', Inr (GRPC_OK,
                  \<lparr>out_result_stack = Slot NullPtr, out_result_len = Slot 0,
                   out_error = Slot (Ptr err)\<rparr>))
      \<and> error_info_get_error_type s' (Ptr err) = Inr ''UnknownWord'')
   \<and> (\<exists>s' arr ps.
      grpc_client_execute_word remote_add demo_state (Ptr 0) (Some ''add'')
          [Ptr 0, Ptr 1] demo_outs =
        (s', Inr (GRPC_OK,
                  \<lparr>out_result_stack = Slot (Ptr arr), out_result_len = Slot 1,
                   out_error = Slot NullPtr\<rparr>))
      \<and> lookup (value_arrays s') arr = Some ps
      \<and> map (deref (stack_values s')) ps = [Inr (IntValue 5)])"
proof -
  let ?e = "\<lparr>proto_message = ''Unknown word: missing_word'', proto_runtime = ''zig'',
             proto_error_type = ''UnknownWord''\<rparr>"
  have ok: "ok ok_status"
    by (simp add: ok_def ok_status_def)
  have outs: "demo_outs
      = \<lparr>out_result_stack = Slot NullPtr, out_result_len = Slot 0, out_error = Slot NullPtr\<rparr>"
    by (simp add: demo_outs_def)
  have r1: "remote_unknown_word demo_client
        \<lparr>req_word_name = ''missing_word'', req_stack = [IntValue 2, IntValue 3]\<rparr>
      = (ok_status, \<lparr>result_stack = [], resp_error = Some ?e\<rparr>)"
    by (simp add: remote_unknown_word_def)
  have r2: "remote_add demo_client
        \<lparr>req_word_name = ''add'', req_stack = [IntValue 2, IntValue 3]\<rparr>
      = (ok_status, \<lparr>result_stack = [IntValue 5], resp_error = None\<rparr>)"
    by (simp add: remote_add_def)
  from C1_dual_channel [where remote = remote_unknown_word,
      OF demo_client_live demo_stack_live r1 ok outs]
  have 1: "\<exists>s' err.
      grpc_client_execute_word remote_unknown_word demo_state (Ptr 0) (Some ''missing_word'')
          [Ptr 0, Ptr 1] demo_outs =
        (s', Inr (GRPC_OK,
                  \<lparr>out_result_stack = Slot NullPtr, out_result_len = Slot 0,
                   out_error = Slot (Ptr err)\<rparr>))
      \<and> error_info_get_error_type s' (Ptr err) = Inr ''UnknownWord''"
    by (auto simp: error_info_get_error_type_def deref_def)
  from C1_dual_channel [where remote = remote_add,
      OF demo_client_live demo_stack_live r2 ok outs]
  have 2: "\<exists>s' arr ps.
      grpc_client_execute_word remote_add demo_state (Ptr 0) (Some ''add'')
          [Ptr 0, Ptr 1] demo_outs =
        (s', Inr (GRPC_OK,
                  \<lparr>out_result_stack = Slot (Ptr arr), out_result_len = Slot 1,
                   out_error = Slot NullPtr\<rparr>))
      \<and> lookup (value_arrays s') arr = Some ps
      \<and> map (deref (stack_values s')) ps = [Inr (IntValue 5)]"
    by auto
  from 1 2 show ?thesis ..
qed

subsection \<open>The status mapping\<close>

text \<open>
  C2, as stated: every status value that the transport defines maps to a member of the
  taxonomy other than \<open>GRPC_ERROR_UNKNOWN\<close>. The defined value \<open>CANCELLED\<close> has no
  case in the switch and takes the default.
\<close>

theorem C2_defined_status_counterexample:
  "CANCELLED \<in> set defined_status_codes
   \<and> status_to_error_code \<lparr>error_code = CANCELLED, error_message = []\<rparr> = GRPC_ERROR_UNKNOWN"
  by (simp add: defined_status_codes_def status_to_error_code_def ok_def StatusCode_defs)

text \<open>
  C2, amended: the mapping is a function of the status code alone; an OK status maps to
  \<open>GRPC_OK\<close>; each of the thirteen status values the switch names maps to a member
  other than \<open>GRPC_OK\<close> and \<open>GRPC_ERROR_UNKNOWN\<close>, pairwise distinct; every other
  value, the defined \<open>CANCELLED\<close>, \<open>UNKNOWN\<close> and \<open>DEADLINE_EXCEEDED\<close> among them,
  maps to \<open>GRPC_ERROR_UNKNOWN\<close>.
\<close>

theorem C2_status_mapping:
  "(error_code s = error_code t \<longrightarrow> status_to_error_code s = status_to_error_code t)
   \<and> (ok s \<longrightarrow> status_to_error_code s = GRPC_OK)
   \<and> (error_code s \<in> set switch_cases \<longrightarrow>
        status_to_error_code s \<noteq> GRPC_ERROR_UNKNOWN \<and> status_to_error_code s \<noteq> GRPC_OK)
   \<and> (error_code s \<in> set switch_cases \<and> error_code t \<in> set switch_cases
        \<and> status_to_error_code s = status_to_error_code t \<longrightarrow> error_code s = error_code t)
   \<and> (error_code s \<noteq> OK \<and> error_code s \<notin> set switch_cases \<longrightarrow>
        status_to_error_code s = GRPC_ERROR_UNKNOWN)
   \<and> status_to_error_code (s\<lparr>error_code := CANCELLED\<rparr>) = GRPC_ERROR_UNKNOWN
   \<and> status_to_error_code (s\<lparr>error_code := UNKNOWN\<rparr>) = GRPC_ERROR_UNKNOWN
   \<and> status_to_error_code (s\<lparr>error_code := DEADLINE_EXCEEDED\<rparr>) = GRPC_ERROR_UNKNOWN"
  by (simp add: status_to_error_code_def ok_def switch_cases_def StatusCode_defs)

text \<open>An instance of the theorem, with its hypotheses discharged.\<close>

theorem C2_status_mapping_witness:
  "status_to_error_code \<lparr>error_code = OK, error_message = []\<rparr> = GRPC_OK
   \<and> status_to_error_code \<lparr>error_code = UNAVAILABLE, error_message = ''down''\<rparr>
       \<noteq> GRPC_ERROR_UNKNOWN
   \<and> status_to_error_code \<lparr>error_code = 42, error_message = []\<rparr> = GRPC_ERROR_UNKNOWN"
proof -
  let ?o = "\<lparr>error_code = OK, error_message = []\<rparr>"
  let ?u = "\<lparr>error_code = UNAVAILABLE, error_message = ''down''\<rparr>"
  let ?n = "\<lparr>error_code = 42, error_message = []\<rparr>"
  have 1: "status_to_error_code ?o = GRPC_OK"
    using C2_status_mapping [of ?o ?o] by (simp add: ok_def)
  have 2: "status_to_error_code ?u \<noteq> GRPC_ERROR_UNKNOWN"
    using C2_status_mapping [of ?u ?u] by (simp add: switch_cases_def)
  have 3: "status_to_error_code ?n = GRPC_ERROR_UNKNOWN"
    using C2_status_mapping [of ?n ?n] by (simp add: switch_cases_def StatusCode_defs)
  from 1 2 3 show ?thesis by simp
qed

subsection \<open>Creating a client\<close>

text \<open>
  C3, as stated: \<^verbatim>\<open>grpc_client_create\<close> with an empty address string returns
  \<open>GRPC_ERROR_INVALID_ARGUMENT\<close> and allocates no client. The guard of the function
  tests the address pointer, not the string: with the empty string the function
  allocates a client and returns \<open>GRPC_OK\<close>.
\<close>

theorem C3_empty_address_counterexample:
  "grpc_client_create init_state (Some []) (Slot NullPtr) =
     (GRPC_OK, init_state\<lparr>clients := [Some \<lparr>channel_target = []\<rparr>]\<rparr>, Slot (Ptr 0))"
  by (simp add: grpc_client_create_def alloc_def init_state_def)

text \<open>
  C3, amended: \<^verbatim>\<open>grpc_client_create\<close> returns \<open>GRPC_ERROR_INVALID_ARGUMENT\<close>, allocates
  nothing and writes nothing when the address pointer is null or the output slot is
  absent. Otherwise, for every address string, it allocates a new client with a
  channel to that address, stores its handle in the slot and returns \<open>GRPC_OK\<close>;
  the other clients are untouched and nothing goes out on the network.
\<close>

theorem C3_client_create:
  "(address = None \<or> out_client = NoSlot \<longrightarrow>
      grpc_client_create s address out_client = (GRPC_ERROR_INVALID_ARGUMENT, s, out_client))
   \<and> (address = Some target \<and> out_client = Slot x \<longrightarrow>
      (\<exists>client s'.
         grpc_client_create s address out_client = (GRPC_OK, s', Slot (Ptr client))
         \<and> lookup (clients s) client = None
         \<and> lookup (clients s') client = Some \<lparr>channel_target = target\<rparr>
         \<and> (\<forall>b. b \<noteq> client \<longrightarrow> lookup (clients s') b = lookup (clients s) b)
         \<and> rpc_log s' = rpc_log s))"
  by (auto simp: grpc_client_create_def alloc_def lookup_append_new lookup_length
      split: option.splits out_slot.splits)

text \<open>An instance of the theorem, with its hypotheses discharged.\<close>

theorem C3_client_create_witness:
  "grpc_client_create init_state None (Slot NullPtr)
     = (GRPC_ERROR_INVALID_ARGUMENT, init_state, Slot NullPtr)
   \<and> grpc_client_create init_state (Some ''localhost:50051'') NoSlot
     = (GRPC_ERROR_INVALID_ARGUMENT, init_state, NoSlot)
   \<and> (\<exists>client s'.
        grpc_client_create init_state (Some ''localhost:50051'') (Slot NullPtr)
          = (GRPC_OK, s', Slot (Ptr client))
        \<and> lookup (clients s') client = Some \<lparr>channel_target = ''localhost:50051''\<rparr>
        \<and> rpc_log s' = [])"
proof -
  have 1: "grpc_client_create init_state None (Slot NullPtr)
     = (GRPC_ERROR_INVALID_ARGUMENT, init_state, Slot NullPtr)"
    using C3_client_create [where address = None and out_client = "Slot NullPtr"
        and s = init_state]
    by simp
  have 2: "grpc_client_create init_state (Some ''localhost:50051'') NoSlot
     = (GRPC_ERROR_INVALID_ARGUMENT, init_state, NoSlot)"
    using C3_client_create [where address = "Some ''localhost:50051''" and out_client = NoSlot
        and s = init_state]
    by simp
  have 3: "\<exists>client s'.
        grpc_client_create init_state (Some ''localhost:50051'') (Slot NullPtr)
          = (GRPC_OK, s', Slot (Ptr client))
        \<and> lookup (clients s') client = Some \<lparr>channel_target = ''localhost:50051''\<rparr>
        \<and> rpc_log s' = []"
    using C3_client_create [where address = "Some ''localhost:50051''"
        and out_client = "Slot NullPtr" and s = init_state and target = "''localhost:50051''"
        and x = NullPtr]
    by (auto simp: init_state_def)
  from 1 2 3 show ?thesis by simp
qed

subsection \<open>Accessors on another variant\<close>

text \<open>
  C4: for a live value whose tag is not the one an accessor is for, the accessor
  returns its default and does not fail: \<open>0\<close> from \<^verbatim>\<open>stack_value_get_int\<close>, the empty
  string from \<^verbatim>\<open>stack_value_get_string\<close>, \<open>False\<close> from \<^verbatim>\<open>stack_value_get_bool\<close> and
  \<open>0.0\<close> from \<^verbatim>\<open>stack_value_get_float\<close>.
\<close>

theorem C4_default_on_mismatch:
  assumes "deref (stack_values s) val = Inr proto"
  shows "(stack_value_get_type s val \<noteq> Inr STACK_VALUE_INT \<longrightarrow> stack_value_get_int s val = Inr 0)
    \<and> (stack_value_get_type s val \<noteq> Inr STACK_VALUE_STRING \<longrightarrow>
         stack_value_get_string s val = Inr [])
    \<and> (stack_value_get_type s val \<noteq> Inr STACK_VALUE_BOOL \<longrightarrow>
         stack_value_get_bool s val = Inr False)
    \<and> (stack_value_get_type s val \<noteq> Inr STACK_VALUE_FLOAT \<longrightarrow>
         stack_value_get_float s val = Inr 0)"
proof -
  from assms have "val \<noteq> NullPtr"
    by (auto simp: deref_def)
  with assms show ?thesis
    by (cases proto)
       (simp_all add: stack_value_get_type_def stack_value_get_int_def
          stack_value_get_string_def stack_value_get_bool_def stack_value_get_float_def)
qed

text \<open>An instance of the theorem, with its hypotheses discharged.\<close>

theorem C4_default_on_mismatch_witness:
  "stack_value_get_int (snd (stack_value_create_bool init_state True)) (Ptr 0) = Inr 0
   \<and> stack_value_get_string (snd (stack_value_create_bool init_state True)) (Ptr 0) = Inr []
   \<and> stack_value_get_float (snd (stack_value_create_bool init_state True)) (Ptr 0) = Inr 0
   \<and> stack_value_get_bool (snd (stack_value_create_null init_state)) (Ptr 0) = Inr False"
proof -
  let ?b = "snd (stack_value_create_bool init_state True)"
  let ?n = "snd (stack_value_create_null init_state)"
  have b: "deref (stack_values ?b) (Ptr 0) = Inr (BoolValue True)"
    by (simp add: stack_value_create_bool_def new_StackValue_def alloc_def set_proto_value_def
        store_def init_state_def deref_def lookup_def)
  have n: "deref (stack_values ?n) (Ptr 0) = Inr NullValue"
    by (simp add: stack_value_create_null_def new_StackValue_def alloc_def set_proto_value_def
        store_def init_state_def deref_def lookup_def)
  have tb: "stack_value_get_type ?b (Ptr 0) = Inr STACK_VALUE_BOOL"
    using b by (simp add: stack_value_get_type_def)
  have tn: "stack_value_get_type ?n (Ptr 0) = Inr STACK_VALUE_NULL"
    using n by (simp add: stack_value_get_type_def)
  from C4_default_on_mismatch [OF b] tb C4_default_on_mismatch [OF n] tn
  show ?thesis by simp
qed

subsection \<open>Round trip\<close>

text \<open>
  C5: the content of a value survives the codec unchanged, whatever its variant and
  nesting. Packing live values into an array with \<^verbatim>\<open>stack_value_create_array\<close> and
  reading the array back with \<^verbatim>\<open>stack_value_get_array\<close> gives as many handles as went
  in, whose values have the content and the tag of the inputs, in order. The same
  holds for the two loops of \<^verbatim>\<open>grpc_client_execute_word\<close>: when the other end sends
  the stack of the request back as the result stack, the result handles have the
  content and the tag of the stack handles, in order.
\<close>

theorem C5_round_trip:
  assumes items: "map (deref (stack_values s)) items = map Inr vs"
  shows "(\<exists>p s1 s2 arr ps.
            stack_value_create_array s items = Inr (p, s1)
            \<and> stack_value_get_array s1 p (Slot x) (Slot y) =
                Inr (s2, Slot (Ptr arr), Slot (length items))
            \<and> lookup (value_arrays s2) arr = Some ps
            \<and> map (deref (stack_values s2)) ps = map (deref (stack_values s)) items
            \<and> map (stack_value_get_type s2) ps = map (stack_value_get_type s) items)
     \<and> (deref (clients s) client = Inr c \<and> ok status
         \<and> (\<forall>request. remote c request =
               (status, \<lparr>result_stack = req_stack request, resp_error = None\<rparr>))
         \<longrightarrow>
         (\<exists>s' arr ps.
            grpc_client_execute_word remote s client (Some w) items
                \<lparr>out_result_stack = Slot a, out_result_len = Slot b, out_error = Slot e\<rparr> =
              (s', Inr (GRPC_OK,
                        \<lparr>out_result_stack = Slot (Ptr arr),
                         out_result_len = Slot (length items),
                         out_error = Slot NullPtr\<rparr>))
            \<and> lookup (value_arrays s') arr = Some ps
            \<and> map (deref (stack_values s')) ps = map (deref (stack_values s)) items
            \<and> map (stack_value_get_type s') ps = map (stack_value_get_type s) items))"
proof (intro conjI impI)
  from items have len: "length items = length vs"
    by (rule map_eq_imp_length_eq)
  have types: "map (stack_value_get_type t) ps = map (stack_value_get_type s) items"
    if "map (deref (stack_values t)) ps = map Inr vs" for t ps
  proof (rule nth_equalityI)
    from that have l: "length ps = length vs"
      by (rule map_eq_imp_length_eq)
    with len show "length (map (stack_value_get_type t) ps)
        = length (map (stack_value_get_type s) items)"
      by simp
    fix i assume "i < length (map (stack_value_get_type t) ps)"
    then have i: "i < length ps" by simp
    with l len have i': "i < length items" by simp
    from map_deref_nth [OF items i'] map_deref_nth [OF that i]
    have "stack_value_get_type t (ps ! i) = stack_value_get_type s (items ! i)"
      by (rule get_type_same_content)
    with i i' show "map (stack_value_get_type t) ps ! i = map (stack_value_get_type s) items ! i"
      by simp
  qed
  {
    let ?n = "length (stack_values s)"
    let ?s1 = "s\<lparr>stack_values := stack_values s @ [Some (ArrayValue vs)]\<rparr>"
    let ?ps = "map Ptr [Suc ?n ..< Suc ?n + length vs]"
    let ?s2 = "?s1\<lparr>stack_values := stack_values ?s1 @ map Some vs,
                  value_arrays := value_arrays ?s1 @ [Some ?ps]\<rparr>"
    have 1: "stack_value_create_array s items = Inr (Ptr ?n, ?s1)"
      using items by (rule create_array_eq)
    have "deref (stack_values ?s1) (Ptr ?n) = Inr (ArrayValue vs)"
      by (simp add: deref_def lookup_append_new)
    from get_array_eq [OF this, of x y]
    have 2: "stack_value_get_array ?s1 (Ptr ?n) (Slot x) (Slot y)
        = Inr (?s2, Slot (Ptr (length (value_arrays s))), Slot (length items))"
      by (simp add: len)
    have 3: "lookup (value_arrays ?s2) (length (value_arrays s)) = Some ?ps"
      by (simp add: lookup_append_new)
    have d: "map (deref (stack_values ?s2)) ?ps = map Inr vs"
      using deref_new_values [of "stack_values s @ [Some (ArrayValue vs)]" vs] by simp
    with items have 4: "map (deref (stack_values ?s2)) ?ps = map (deref (stack_values s)) items"
      by simp
    from d have 5: "map (stack_value_get_type ?s2) ?ps = map (stack_value_get_type s) items"
      by (rule types)
    from 1 2 3 4 5
    show "\<exists>p s1 s2 arr ps.
            stack_value_create_array s items = Inr (p, s1)
            \<and> stack_value_get_array s1 p (Slot x) (Slot y) =
                Inr (s2, Slot (Ptr arr), Slot (length items))
            \<and> lookup (value_arrays s2) arr = Some ps
            \<and> map (deref (stack_values s2)) ps = map (deref (stack_values s)) items
            \<and> map (stack_value_get_type s2) ps = map (stack_value_get_type s) items"
      by (intro exI conjI)
  }
  {
    assume a: "deref (clients s) client = Inr c \<and> ok status
         \<and> (\<forall>request. remote c request =
               (status, \<lparr>result_stack = req_stack request, resp_error = None\<rparr>))"
    let ?outs = "\<lparr>out_result_stack = Slot a, out_result_len = Slot b, out_error = Slot e\<rparr>"
    let ?s1 = "s\<lparr>rpc_log := rpc_log s @ [(c, \<lparr>req_word_name = w, req_stack = vs\<rparr>)]\<rparr>"
    let ?ps = "map Ptr [length (stack_values s) ..< length (stack_values s) + length vs]"
    let ?s' = "?s1\<lparr>stack_values := stack_values ?s1 @ map Some vs,
                  value_arrays := value_arrays ?s1 @ [Some ?ps]\<rparr>"
    from a have client: "deref (clients s) client = Inr c" and ok: "ok status"
      and reply: "remote c \<lparr>req_word_name = w, req_stack = vs\<rparr>
          = (status, \<lparr>result_stack = vs, resp_error = None\<rparr>)"
      by simp_all
    have "grpc_client_execute_word remote s client (Some w) items ?outs
        = unpack_response ?s1 \<lparr>result_stack = vs, resp_error = None\<rparr> ?outs"
      using execute_word_call [where remote = remote, OF client items _ _ reply] ok by simp
    also have "\<dots> = (?s', Inr (GRPC_OK,
                        \<lparr>out_result_stack = Slot (Ptr (length (value_arrays s))),
                         out_result_len = Slot (length items),
                         out_error = Slot NullPtr\<rparr>))"
      using unpack_response_result [of "\<lparr>result_stack = vs, resp_error = None\<rparr>" ?outs e ?s1]
      by (simp add: len)
    finally have 1: "grpc_client_execute_word remote s client (Some w) items ?outs
        = (?s', Inr (GRPC_OK,
                        \<lparr>out_result_stack = Slot (Ptr (length (value_arrays s))),
                         out_result_len = Slot (length items),
                         out_error = Slot NullPtr\<rparr>))" .
    have 2: "lookup (value_arrays ?s') (length (value_arrays s)) = Some ?ps"
      by (simp add: lookup_append_new)
    have d: "map (deref (stack_values ?s')) ?ps = map Inr vs"
      using deref_new_values [of "stack_values s" vs] by simp
    with items have 3: "map (deref (stack_values ?s')) ?ps = map (deref (stack_values s)) items"
      by simp
    from d have 4: "map (stack_value_get_type ?s') ?ps = map (stack_value_get_type s) items"
      by (rule types)
    from 1 2 3 4
    show "\<exists>s' arr ps.
            grpc_client_execute_word remote s client (Some w) items ?outs =
              (s', Inr (GRPC_OK,
                        \<lparr>out_result_stack = Slot (Ptr arr),
                         out_result_len = Slot (length items),
                         out_error = Slot NullPtr\<rparr>))
            \<and> lookup (value_arrays s') arr = Some ps
            \<and> map (deref (stack_values s')) ps = map (deref (stack_values s)) items
            \<and> map (stack_value_get_type s') ps = map (stack_value_get_type s) items"
      by (intro exI conjI)
  }
qed

text \<open>An instance of the theorem, with its hypotheses discharged.\<close>

theorem C5_round_trip_witness:
  "(\<exists>p s1 s2 arr ps.
      stack_value_create_array demo_state [Ptr 0, Ptr 1] = Inr (p, s1)
      \<and> stack_value_get_array s1 p (Slot NullPtr) (Slot 0) = Inr (s2, Slot (Ptr arr), Slot 2)
      \<and> lookup (value_arrays s2) arr = Some ps
      \<and> map (deref (stack_values s2)) ps = [Inr (IntValue 2), Inr (IntValue 3)]
      \<and> map (stack_value_get_type s2) ps = [Inr STACK_VALUE_INT, Inr STACK_VALUE_INT])
   \<and> (\<exists>s' arr ps.
      grpc_client_execute_word remote_echo demo_state (Ptr 0) (Some ''echo'') [Ptr 0, Ptr 1]
          demo_outs =
        (s', Inr (GRPC_OK,
                  \<lparr>out_result_stack = Slot (Ptr arr), out_result_len = Slot 2,
                   out_error = Slot NullPtr\<rparr>))
      \<and> lookup (value_arrays s') arr = Some ps
      \<and> map (deref (stack_values s')) ps = [Inr (IntValue 2), Inr (IntValue 3)]
      \<and> map (stack_value_get_type s') ps = [Inr STACK_VALUE_INT, Inr STACK_VALUE_INT])"
proof -
  have ok: "deref (clients demo_state) (Ptr 0) = Inr demo_client \<and> ok ok_status
      \<and> (\<forall>request. remote_echo demo_client request =
            (ok_status, \<lparr>result_stack = req_stack request, resp_error = None\<rparr>))"
    using demo_client_live by (simp add: ok_def ok_status_def remote_echo_def)
  have d: "map (deref (stack_values demo_state)) [Ptr 0, Ptr 1]
      = [Inr (IntValue 2), Inr (IntValue 3)]"
    using demo_stack_live by simp
  have t: "map (stack_value_get_type demo_state) [Ptr 0, Ptr 1]
      = [Inr STACK_VALUE_INT, Inr STACK_VALUE_INT]"
    by (simp add: stack_value_get_type_def demo_state_def deref_def lookup_def)
  from C5_round_trip [OF demo_stack_live, where x = NullPtr and y = 0 and client = "Ptr 0"
      and c = demo_client and status = ok_status and remote = remote_echo and w = "''echo''"
      and a = NullPtr and b = 0 and e = NullPtr] ok
  show ?thesis
    unfolding d t demo_outs_def by (simp add: numeral_2_eq_2)
qed

subsection \<open>The argument check of a call\<close>

text \<open>
  C6: the function is to return \<open>GRPC_ERROR_INVALID_ARGUMENT\<close> for an absent error
  slot before anything goes out on the network. The code at that input: with a null
  \<^verbatim>\<open>out_error\<close> and every other argument valid, the request goes out; on an OK
  status the result values are allocated and the write through \<^verbatim>\<open>out_error\<close> is a
  null dereference, and on a failed status the function returns the code of that
  status.
\<close>

theorem C6_null_error_slot:
  "grpc_client_execute_word remote_add demo_state (Ptr 0) (Some ''add'') [Ptr 0, Ptr 1]
       \<lparr>out_result_stack = Slot NullPtr, out_result_len = Slot 0, out_error = NoSlot\<rparr>
     = (demo_state
          \<lparr>stack_values := [Some (IntValue 2), Some (IntValue 3), Some (IntValue 5)],
           value_arrays := [Some [Ptr 2]],
           rpc_log := [(demo_client,
                        \<lparr>req_word_name = ''add'', req_stack = [IntValue 2, IntValue 3]\<rparr>)]\<rparr>,
        Inl NullDereference)
   \<and> grpc_client_execute_word remote_down demo_state (Ptr 0) (Some ''add'') [Ptr 0, Ptr 1]
       \<lparr>out_result_stack = Slot NullPtr, out_result_len = Slot 0, out_error = NoSlot\<rparr>
     = (demo_state
          \<lparr>rpc_log := [(demo_client,
                        \<lparr>req_word_name = ''add'', req_stack = [IntValue 2, IntValue 3]\<rparr>)]\<rparr>,
        Inr (GRPC_ERROR_UNAVAILABLE,
             \<lparr>out_result_stack = Slot NullPtr, out_result_len = Slot 0, out_error = NoSlot\<rparr>))"
  by (simp add: grpc_client_execute_word_def unpack_response_def demo_defs deref_def lookup_def
      ok_def status_to_error_code_def StatusCode_defs malloc_array_def alloc_def
      new_StackValue_def set_proto_value_def array_set_def store_def Let_def)

subsection \<open>Transport failure\<close>

text \<open>
  C7: when the call of \<^verbatim>\<open>grpc_client_execute_word\<close> comes back with a status that is
  not OK, the function returns the code that \<open>status_to_error_code\<close> gives for the
  status, which is not \<open>GRPC_OK\<close>; the three output slots are as they were, and so
  are the heaps: the state differs only by the request that went out.
\<close>

theorem C7_transport_failure:
  assumes client: "deref (clients s) client = Inr c"
    and stack: "map (deref (stack_values s)) stack = map Inr vs"
    and slots: "out_result_stack outs \<noteq> NoSlot" "out_result_len outs \<noteq> NoSlot"
    and reply: "remote c \<lparr>req_word_name = w, req_stack = vs\<rparr> = (status, response)"
    and failed: "\<not> ok status"
  shows "grpc_client_execute_word remote s client (Some w) stack outs =
           (s\<lparr>rpc_log := rpc_log s @ [(c, \<lparr>req_word_name = w, req_stack = vs\<rparr>)]\<rparr>,
            Inr (status_to_error_code status, outs))
         \<and> status_to_error_code status \<noteq> GRPC_OK"
  using execute_word_call [where remote = remote, OF client stack slots reply] failed
  by (simp add: status_to_error_code_not_ok)

text \<open>An instance of the theorem, with its hypotheses discharged.\<close>

theorem C7_transport_failure_witness:
  "grpc_client_execute_word remote_down demo_state (Ptr 0) (Some ''add'') [Ptr 0, Ptr 1] demo_outs
     = (demo_state\<lparr>rpc_log := [(demo_client,
                          \<lparr>req_word_name = ''add'', req_stack = [IntValue 2, IntValue 3]\<rparr>)]\<rparr>,
        Inr (GRPC_ERROR_UNAVAILABLE, demo_outs))"
proof -
  let ?st = "\<lparr>error_code = UNAVAILABLE, error_message = ''connection refused''\<rparr>"
  have slots: "out_result_stack demo_outs \<noteq> NoSlot" "out_result_len demo_outs \<noteq> NoSlot"
    by (simp_all add: demo_outs_def)
  have r: "remote_down demo_client
        \<lparr>req_word_name = ''add'', req_stack = [IntValue 2, IntValue 3]\<rparr>
      = (?st, \<lparr>result_stack = [], resp_error = None\<rparr>)"
    by (simp add: remote_down_def)
  have failed: "\<not> ok ?st"
    by (simp add: ok_def StatusCode_defs)
  have code: "status_to_error_code ?st = GRPC_ERROR_UNAVAILABLE"
    by (simp add: status_to_error_code_def ok_def StatusCode_defs)
  have log: "rpc_log demo_state = []"
    by (simp add: demo_state_def)
  from C7_transport_failure [where remote = remote_down,
      OF demo_client_live demo_stack_live slots r failed]
  show ?thesis
    by (simp add: code log)
qed

subsection \<open>Reading an array\<close>

text \<open>
  C8: \<^verbatim>\<open>stack_value_get_array\<close> on a live value with both output slots. When the tag
  is not Array, the items pointer is null and the count 0, and nothing is allocated.
  When it is Array, the count is the length of the array and the items pointer is a
  new block of that many pairwise distinct handles, the \<open>i\<close>-th being a new object
  with the content of the \<open>i\<close>-th element. The objects that existed keep their
  content; releasing the parent leaves every item as it is, and releasing an item
  leaves the parent and the other items as they are.
\<close>

theorem C8_get_array:
  assumes val: "deref (stack_values s) val = Inr proto"
  shows "(\<not> has_array_value proto \<longrightarrow>
            stack_value_get_array s val (Slot x) (Slot y) = Inr (s, Slot NullPtr, Slot 0))
   \<and> (has_array_value proto \<longrightarrow>
        (\<exists>s' items ps.
           stack_value_get_array s val (Slot x) (Slot y) =
             Inr (s', Slot (Ptr items), Slot (length (array_items proto)))
           \<and> lookup (value_arrays s) items = None
           \<and> lookup (value_arrays s') items = Some ps
           \<and> length ps = length (array_items proto)
           \<and> distinct ps
           \<and> (\<forall>i < length ps. \<exists>a.
                ps ! i = Ptr a \<and> lookup (stack_values s) a = None
                \<and> lookup (stack_values s') a = Some (array_items proto ! i))
           \<and> (\<forall>b v. lookup (stack_values s) b = Some v \<longrightarrow> lookup (stack_values s') b = Some v)
           \<and> (\<exists>s''. stack_value_destroy s' val = Inr s''
                \<and> (\<forall>i < length ps. deref (stack_values s'') (ps ! i) = Inr (array_items proto ! i)))
           \<and> (\<forall>i < length ps. \<exists>s''.
                stack_value_destroy s' (ps ! i) = Inr s''
                \<and> deref (stack_values s'') val = Inr proto
                \<and> (\<forall>j < length ps. j \<noteq> i \<longrightarrow>
                      deref (stack_values s'') (ps ! j) = Inr (array_items proto ! j)))))"
    (is "_ \<and> (_ \<longrightarrow> (\<exists>s' items ps. ?P s' items ps))")
proof (intro conjI impI)
  assume "\<not> has_array_value proto"
  moreover from val have "val \<noteq> NullPtr"
    by (auto simp: deref_def)
  ultimately show "stack_value_get_array s val (Slot x) (Slot y) = Inr (s, Slot NullPtr, Slot 0)"
    using val by (simp add: stack_value_get_array_def)
next
  assume "has_array_value proto"
  then obtain vs where proto: "proto = ArrayValue vs"
    by (cases proto) simp_all
  from val obtain b where b: "val = Ptr b" "lookup (stack_values s) b = Some proto"
    by (auto simp: deref_Inr_iff)
  let ?n = "length (stack_values s)"
  let ?items = "length (value_arrays s)"
  let ?ps = "map Ptr [?n ..< ?n + length vs]"
  let ?s' = "s\<lparr>stack_values := stack_values s @ map Some vs,
               value_arrays := value_arrays s @ [Some ?ps]\<rparr>"
  from b(2) have less: "b < ?n" by (rule lookup_Some_less)
  have call: "stack_value_get_array s val (Slot x) (Slot y)
      = Inr (?s', Slot (Ptr ?items), Slot (length vs))"
    using val unfolding proto by (rule get_array_eq)
  have new_block: "lookup (value_arrays s) ?items = None"
    by (rule lookup_length)
  have block: "lookup (value_arrays ?s') ?items = Some ?ps"
    by (simp add: lookup_append_new)
  have len: "length ?ps = length vs"
    by simp
  have dist: "distinct ?ps"
    by (simp add: distinct_map inj_on_def)
  have item: "\<forall>i < length ?ps. \<exists>a. ?ps ! i = Ptr a \<and> lookup (stack_values s) a = None
      \<and> lookup (stack_values ?s') a = Some (vs ! i)"
    by (simp add: lookup_append_heap lookup_map_Some lookup_beyond)
  have kept: "\<forall>c v. lookup (stack_values s) c = Some v \<longrightarrow> lookup (stack_values ?s') c = Some v"
    by (simp add: lookup_append_heap lookup_Some_less)
  have parent_released: "\<exists>s''. stack_value_destroy ?s' val = Inr s''
      \<and> (\<forall>i < length ?ps. deref (stack_values s'') (?ps ! i) = Inr (vs ! i))"
  proof -
    let ?s'' = "?s'\<lparr>stack_values := release (stack_values ?s') b\<rparr>"
    from kept b(2) have "lookup (stack_values ?s') b = Some proto"
      by blast
    then have "stack_value_destroy ?s' (Ptr b) = Inr ?s''"
      by (rule destroy_live)
    then have 1: "stack_value_destroy ?s' val = Inr ?s''"
      by (simp only: b(1))
    have 2: "\<forall>i < length ?ps. deref (stack_values ?s'') (?ps ! i) = Inr (vs ! i)"
      using less by (simp add: deref_def lookup_release lookup_append_heap lookup_map_Some)
    from 1 2 show ?thesis
      by (intro exI [of _ ?s''] conjI)
  qed
  have item_released: "\<forall>i < length ?ps. \<exists>s''. stack_value_destroy ?s' (?ps ! i) = Inr s''
      \<and> deref (stack_values s'') val = Inr (ArrayValue vs)
      \<and> (\<forall>j < length ?ps. j \<noteq> i \<longrightarrow> deref (stack_values s'') (?ps ! j) = Inr (vs ! j))"
  proof (intro allI impI)
    fix i assume "i < length ?ps"
    then have i: "i < length vs" by simp
    let ?s'' = "?s'\<lparr>stack_values := release (stack_values ?s') (?n + i)\<rparr>"
    from i have pi: "?ps ! i = Ptr (?n + i)" by simp
    from i have "lookup (stack_values ?s') (?n + i) = Some (vs ! i)"
      by (simp add: lookup_append_heap lookup_map_Some)
    then have "stack_value_destroy ?s' (Ptr (?n + i)) = Inr ?s''"
      by (rule destroy_live)
    then have 1: "stack_value_destroy ?s' (?ps ! i) = Inr ?s''"
      by (simp only: pi)
    have 2: "deref (stack_values ?s'') val = Inr (ArrayValue vs)"
      using b less proto by (simp add: deref_def lookup_release lookup_append_heap)
    have 3: "\<forall>j < length ?ps. j \<noteq> i \<longrightarrow> deref (stack_values ?s'') (?ps ! j) = Inr (vs ! j)"
      by (simp add: deref_def lookup_release lookup_append_heap lookup_map_Some)
    from 1 2 3
    show "\<exists>s''. stack_value_destroy ?s' (?ps ! i) = Inr s''
      \<and> deref (stack_values s'') val = Inr (ArrayValue vs)
      \<and> (\<forall>j < length ?ps. j \<noteq> i \<longrightarrow> deref (stack_values s'') (?ps ! j) = Inr (vs ! j))"
      by (intro exI [of _ ?s''] conjI)
  qed
  have "?P ?s' ?items ?ps"
    unfolding proto array_items.simps
    by (intro conjI)
       (rule call new_block block len dist item kept parent_released item_released)+
  then show "\<exists>s' items ps. ?P s' items ps"
    by (intro exI)
qed

text \<open>An instance of the theorem, with its hypotheses discharged.\<close>

theorem C8_get_array_witness:
  "stack_value_get_array
       (init_state\<lparr>stack_values := [Some (ArrayValue [IntValue 1, StringValue ''a'']),
                                    Some (IntValue 7)]\<rparr>)
       (Ptr 1) (Slot NullPtr) (Slot 5)
     = Inr (init_state\<lparr>stack_values := [Some (ArrayValue [IntValue 1, StringValue ''a'']),
                                          Some (IntValue 7)]\<rparr>,
            Slot NullPtr, Slot 0)
   \<and> (\<exists>s' items ps.
        stack_value_get_array
            (init_state\<lparr>stack_values := [Some (ArrayValue [IntValue 1, StringValue ''a'']),
                                         Some (IntValue 7)]\<rparr>)
            (Ptr 0) (Slot NullPtr) (Slot 5)
          = Inr (s', Slot (Ptr items), Slot 2)
        \<and> lookup (value_arrays s') items = Some ps
        \<and> length ps = 2 \<and> distinct ps
        \<and> deref (stack_values s') (ps ! 0) = Inr (IntValue 1)
        \<and> deref (stack_values s') (ps ! 1) = Inr (StringValue ''a''))"
proof -
  let ?s = "init_state\<lparr>stack_values := [Some (ArrayValue [IntValue 1, StringValue ''a'']),
                                       Some (IntValue 7)]\<rparr>"
  have v1: "deref (stack_values ?s) (Ptr 1) = Inr (IntValue 7)"
    by (simp add: deref_def lookup_def)
  have v0: "deref (stack_values ?s) (Ptr 0) = Inr (ArrayValue [IntValue 1, StringValue ''a''])"
    by (simp add: deref_def lookup_def)
  from C8_get_array [OF v1, of NullPtr 5]
  have 1: "stack_value_get_array ?s (Ptr 1) (Slot NullPtr) (Slot 5)
      = Inr (?s, Slot NullPtr, Slot 0)"
    by simp
  from C8_get_array [OF v0, of NullPtr 5]
  obtain s' items ps where
    call: "stack_value_get_array ?s (Ptr 0) (Slot NullPtr) (Slot 5)
        = Inr (s', Slot (Ptr items), Slot 2)"
    and block: "lookup (value_arrays s') items = Some ps"
    and len: "length ps = 2" and dist: "distinct ps"
    and item: "\<forall>i<length ps. \<exists>a. ps ! i = Ptr a \<and> lookup (stack_values ?s) a = None
        \<and> lookup (stack_values s') a = Some ([IntValue 1, StringValue ''a''] ! i)"
    by auto
  from item [THEN spec, of 0] len have "deref (stack_values s') (ps ! 0) = Inr (IntValue 1)"
    by (auto simp: deref_def)
  moreover from item [THEN spec, of 1] len
  have "deref (stack_values s') (ps ! 1) = Inr (StringValue ''a'')"
    by (auto simp: deref_def)
  ultimately show ?thesis
    using 1 call block len dist by blast
qed

subsection \<open>Building an array\<close>

text \<open>
  C9: for a sequence of live handles, \<^verbatim>\<open>stack_value_create_array\<close> returns a new
  object whose array holds the content of the items, in order. Every object that
  was live before the call is live after it with the same content, so the items
  stay with the caller; and after releasing any of the items the array still holds
  the same content.
\<close>

theorem C9_create_array_copies:
  assumes items: "map (deref (stack_values s)) items = map Inr vs"
  shows "\<exists>a s'.
     stack_value_create_array s items = Inr (Ptr a, s')
     \<and> lookup (stack_values s) a = None
     \<and> lookup (stack_values s') a = Some (ArrayValue vs)
     \<and> (\<forall>b v. lookup (stack_values s) b = Some v \<longrightarrow> lookup (stack_values s') b = Some v)
     \<and> (\<forall>p \<in> set items. \<exists>s''.
          stack_value_destroy s' p = Inr s''
          \<and> lookup (stack_values s'') a = Some (ArrayValue vs))"
proof -
  let ?a = "length (stack_values s)"
  let ?s' = "s\<lparr>stack_values := stack_values s @ [Some (ArrayValue vs)]\<rparr>"
  have call: "stack_value_create_array s items = Inr (Ptr ?a, ?s')"
    using items by (rule create_array_eq)
  have new: "lookup (stack_values s) ?a = None"
    by (rule lookup_length)
  have content: "lookup (stack_values ?s') ?a = Some (ArrayValue vs)"
    by (simp add: lookup_append_new)
  have kept: "lookup (stack_values ?s') b = Some v" if "lookup (stack_values s) b = Some v" for b v
    using that lookup_Some_less [OF that] by (simp add: lookup_append_new)
  have released: "\<exists>s''. stack_value_destroy ?s' p = Inr s''
      \<and> lookup (stack_values s'') ?a = Some (ArrayValue vs)" if p: "p \<in> set items" for p
  proof -
    from live_items [OF items p] obtain b v where b: "p = Ptr b" "lookup (stack_values s) b = Some v"
      by blast
    from b(2) have less: "b < ?a" by (rule lookup_Some_less)
    from kept [OF b(2)] have "stack_value_destroy ?s' (Ptr b)
        = Inr (?s'\<lparr>stack_values := release (stack_values ?s') b\<rparr>)"
      by (rule destroy_live)
    moreover from less content
    have "lookup (stack_values (?s'\<lparr>stack_values := release (stack_values ?s') b\<rparr>)) ?a
        = Some (ArrayValue vs)"
      by (simp add: lookup_release)
    ultimately show ?thesis using b(1) by blast
  qed
  from call new content kept released show ?thesis by blast
qed

text \<open>An instance of the theorem, with its hypotheses discharged.\<close>

theorem C9_create_array_copies_witness:
  "\<exists>a s'.
     stack_value_create_array demo_state [Ptr 0, Ptr 1] = Inr (Ptr a, s')
     \<and> lookup (stack_values s') a = Some (ArrayValue [IntValue 2, IntValue 3])
     \<and> deref (stack_values s') (Ptr 0) = Inr (IntValue 2)
     \<and> (\<exists>s''. stack_value_destroy s' (Ptr 0) = Inr s''
          \<and> lookup (stack_values s'') a = Some (ArrayValue [IntValue 2, IntValue 3]))"
proof -
  have live: "lookup (stack_values demo_state) 0 = Some (IntValue 2)"
    by (simp add: demo_state_def lookup_def)
  from C9_create_array_copies [OF demo_stack_live] live
  show ?thesis
    by (fastforce simp: deref_def)
qed

subsection \<open>Null handles\<close>

text \<open>
  C10: every inspection of a null handle returns without a fault:
  \<^verbatim>\<open>stack_value_get_type\<close> reports \<open>STACK_VALUE_NULL\<close>, the four payload accessors
  return \<open>0\<close>, the empty string, \<open>False\<close> and \<open>0.0\<close>, \<^verbatim>\<open>stack_value_get_array\<close>
  returns with nothing written, and the three accessors of a null \<open>ErrorInfo\<close>
  return the empty string.
\<close>

theorem C10_null_handle:
  "stack_value_get_type s NullPtr = Inr STACK_VALUE_NULL
   \<and> stack_value_get_int s NullPtr = Inr 0
   \<and> stack_value_get_string s NullPtr = Inr []
   \<and> stack_value_get_bool s NullPtr = Inr False
   \<and> stack_value_get_float s NullPtr = Inr 0
   \<and> stack_value_get_array s NullPtr out_items out_len = Inr (s, out_items, out_len)
   \<and> error_info_get_message s NullPtr = Inr []
   \<and> error_info_get_runtime s NullPtr = Inr []
   \<and> error_info_get_error_type s NullPtr = Inr []"
  by (simp add: stack_value_get_type_def stack_value_get_int_def stack_value_get_string_def
      stack_value_get_bool_def stack_value_get_float_def stack_value_get_array_def
      error_info_get_message_def error_info_get_runtime_def error_info_get_error_type_def)

text \<open>The theorem at the state of the scenarios.\<close>

theorem C10_null_handle_witness:
  "stack_value_get_type demo_state NullPtr = Inr STACK_VALUE_NULL
   \<and> stack_value_get_int demo_state NullPtr = Inr 0
   \<and> stack_value_get_bool demo_state NullPtr = Inr False
   \<and> error_info_get_message demo_state NullPtr = Inr []"
  using C10_null_handle [of demo_state NoSlot NoSlot] by simp

end
